theory Spec2Isabelle
  imports Complex_Main
begin

section \<open>Errors and float results\<close>

text \<open>
  Exceptions raised by the tensor library or by Python are values of \<open>error\<close>;
  a fallible operation returns \<open>error + 'a\<close> with \<open>Inl\<close> for the exception.
\<close>

datatype error = RuntimeError | IndexError | TypeError | ValueError

text \<open>
  The counters of the metric are float tensors. Finite floats are idealised as exact
  reals (no rounding); the non-finite results of a division are kept apart, so that
  \<open>torch.isfinite\<close> has something to test.
\<close>

datatype fval = Fin real | PInf | NInf | NaN

fun isfinite :: "fval \<Rightarrow> bool" where
  "isfinite (Fin r) = True"
| "isfinite PInf = False"
| "isfinite NInf = False"
| "isfinite NaN = False"

text \<open>Division of two finite floats: \<open>x / 0\<close> is an infinity or NaN, never an exception.\<close>

definition fdiv :: "real \<Rightarrow> real \<Rightarrow> fval" where
  "fdiv a b = (if b = 0 then (if a = 0 then NaN else if 0 < a then PInf else NInf)
               else Fin (a / b))"

section \<open>Tensor primitives used by the IoU metric\<close>

text \<open>
  \<open>torch.argmax\<close> of a vector: the index of the first maximal value.
  \<open>argmax_acc bi bv i vs\<close> scans \<open>vs\<close> (whose head has index \<open>i\<close>) with the
  best index \<open>bi\<close> and best value \<open>bv\<close> so far.
\<close>

fun argmax_acc :: "nat \<Rightarrow> real \<Rightarrow> nat \<Rightarrow> real list \<Rightarrow> nat" where
  "argmax_acc bi bv i [] = bi"
| "argmax_acc bi bv i (v # vs) =
     (if bv < v then argmax_acc i v (Suc i) vs else argmax_acc bi bv (Suc i) vs)"

definition argmax :: "real list \<Rightarrow> error + nat" where
  "argmax vs = (case vs of [] \<Rightarrow> Inl IndexError | v # vs' \<Rightarrow> Inr (argmax_acc 0 v 1 vs'))"

text \<open>
  A prediction tensor of shape \<open>[B, C, ...]\<close> is a list of \<open>B\<close> batch elements, each
  a list of \<open>C\<close> class planes, each the row-major list of the scores of that class at
  every pixel (a tensor of shape \<open>[B, C]\<close> has one pixel per batch element).
  \<open>argmax_dim1\<close> is \<open>torch.argmax(x, dim=1).view(-1)\<close>: the winning class of every
  pixel, batch element after batch element. A class dimension of size zero raises.
  The planes of a tensor have one length; concatenating two prediction tensors along
  the batch axis appends their lists of batch elements.
\<close>

fun sequence :: "(error + 'a) list \<Rightarrow> error + 'a list" where
  "sequence [] = Inr []"
| "sequence (r # rs) =
     (case r of Inl e \<Rightarrow> Inl e
      | Inr v \<Rightarrow> (case sequence rs of Inl e \<Rightarrow> Inl e | Inr vs \<Rightarrow> Inr (v # vs)))"

definition argmax_planes :: "real list list \<Rightarrow> error + nat list" where
  "argmax_planes xb =
     (case xb of [] \<Rightarrow> Inl IndexError
      | plane # _ \<Rightarrow> sequence (map (\<lambda>p. argmax (map (\<lambda>pl. pl ! p) xb)) [0..<length plane]))"

definition argmax_dim1 :: "real list list list \<Rightarrow> error + nat list" where
  "argmax_dim1 x =
     (case sequence (map argmax_planes x) of Inl e \<Rightarrow> Inl e | Inr ls \<Rightarrow> Inr (concat ls))"

text \<open>
  An elementwise binary operation on two vectors, with the broadcasting rule of the
  tensor library: equal lengths, or one of the two has length one; anything else raises.
\<close>

definition broadcast2 :: "('a \<Rightarrow> 'b \<Rightarrow> 'c) \<Rightarrow> 'a list \<Rightarrow> 'b list \<Rightarrow> error + 'c list" where
  "broadcast2 f xs ys =
     (if length xs = length ys then Inr (map2 f xs ys)
      else if length xs = 1 then Inr (map (f (hd xs)) ys)
      else if length ys = 1 then Inr (map (\<lambda>a. f a (hd ys)) xs)
      else Inl RuntimeError)"

text \<open>\<open>torch.sum\<close> of a boolean tensor: the number of true entries.\<close>

definition sum_bool :: "bool list \<Rightarrow> nat" where
  "sum_bool bs = length (filter (\<lambda>b. b) bs)"

section \<open>The IoU accumulator\<close>

record IoU =
  num_classes :: nat
  smooth :: real
  inter_t :: "real list"
  union_t :: "real list"

definition zeros :: "nat \<Rightarrow> real list" where
  "zeros n = replicate n 0"

definition reset :: "IoU \<Rightarrow> IoU" where
  "reset s = s\<lparr>inter_t := map (\<lambda>z. z + smooth s) (zeros (num_classes s)),
               union_t := map (\<lambda>z. z + smooth s) (zeros (num_classes s))\<rparr>"

definition IoU_init :: "nat \<Rightarrow> real \<Rightarrow> IoU" where
  "IoU_init n sm = reset \<lparr>num_classes = n, smooth = sm, inter_t = [], union_t = []\<rparr>"

text \<open>
  The body of the loop \<open>for k in range(num_classes)\<close> of \<open>update\<close>, run over the
  classes \<open>ks\<close> that are still to come. \<open>x\<close> holds the predicted labels and \<open>y\<close> the
  flattened targets. An augmented assignment \<open>t[k] += v\<close> reads \<open>t[k]\<close> before it
  evaluates \<open>v\<close>, so an index out of range is reported first.
\<close>

fun update_classes :: "nat list \<Rightarrow> nat list \<Rightarrow> int list \<Rightarrow> IoU \<Rightarrow> error + IoU" where
  "update_classes [] x y s = Inr s"
| "update_classes (k # ks) x y s =
     (let a = map (\<lambda>v. v = k) x;
          b = map (\<lambda>v. v = int k) y
      in if \<not> k < length (inter_t s) then Inl IndexError
         else (case broadcast2 (\<and>) a b of Inl e \<Rightarrow> Inl e
           | Inr ab \<Rightarrow>
             if \<not> k < length (union_t s) then Inl IndexError
             else (case broadcast2 (\<or>) a b of Inl e \<Rightarrow> Inl e
               | Inr aob \<Rightarrow>
                 update_classes ks x y
                   (s\<lparr>inter_t := (inter_t s)[k := inter_t s ! k + real (sum_bool ab)],
                      union_t := (union_t s)[k := union_t s ! k + real (sum_bool aob)]\<rparr>))))"

text \<open>
  \<open>update\<close>. The targets \<open>y\<close> are given by their row-major list of elements, which
  is what \<open>y.view(-1)\<close> yields; concatenating two target tensors along the batch axis
  appends these lists. An exception leaves through \<open>Inl\<close>, without a state.
\<close>

definition update :: "IoU \<Rightarrow> real list list list \<Rightarrow> int list \<Rightarrow> error + IoU" where
  "update s x y =
     (case argmax_dim1 x of Inl e \<Rightarrow> Inl e
      | Inr xl \<Rightarrow> update_classes [0..<num_classes s] xl y s)"

text \<open>
  \<open>score\<close>: the elementwise ratio \<open>value\<close>, the entries selected by the mask
  \<open>torch.isfinite(value)\<close> (read back as reals by \<open>fin_val\<close>, which is only ever
  applied to finite entries), and their mean (\<open>torch.mean\<close> of an empty tensor is NaN).
\<close>

fun fin_val :: "fval \<Rightarrow> real" where
  "fin_val (Fin r) = r"
| "fin_val PInf = 0"
| "fin_val NInf = 0"
| "fin_val NaN = 0"

definition finite_values :: "fval list \<Rightarrow> real list" where
  "finite_values vs = map fin_val (filter isfinite vs)"

definition torch_mean :: "real list \<Rightarrow> fval" where
  "torch_mean rs = fdiv (sum_list rs) (real (length rs))"

definition score :: "IoU \<Rightarrow> fval" where
  "score s = (let value = map2 fdiv (inter_t s) (union_t s)
              in torch_mean (finite_values value))"

definition mean :: "IoU \<Rightarrow> fval" where
  "mean s = score s"

text \<open>A run of \<open>update\<close> calls, one per mini-batch; the first exception ends it.\<close>

fun updates :: "IoU \<Rightarrow> (real list list list \<times> int list) list \<Rightarrow> error + IoU" where
  "updates s [] = Inr s"
| "updates s (xy # bs) =
     (case update s (fst xy) (snd xy) of Inl e \<Rightarrow> Inl e | Inr s' \<Rightarrow> updates s' bs)"

section \<open>Vocabulary of the properties\<close>

text \<open>
  The state invariant of the accumulator: both counter tensors have one entry per class.
  \<open>reset\<close> establishes it and \<open>update\<close> keeps it.
\<close>

definition well_formed :: "IoU \<Rightarrow> bool" where
  "well_formed s = (length (inter_t s) = num_classes s \<and> length (union_t s) = num_classes s)"

text \<open>Two vectors that an elementwise operation accepts.\<close>

definition compatible :: "'a list \<Rightarrow> 'b list \<Rightarrow> bool" where
  "compatible xs ys = (length xs = length ys \<or> length xs = 1 \<or> length ys = 1)"


text \<open>
  What one \<open>update\<close> adds to the two counters of class \<open>k\<close>, for predicted labels
  \<open>x\<close> and targets \<open>y\<close>: \<open>count(pred == k AND truth == k)\<close> and
  \<open>count(pred == k OR truth == k)\<close>.
\<close>

definition inter_count :: "nat \<Rightarrow> nat list \<Rightarrow> int list \<Rightarrow> nat" where
  "inter_count k x y =
     (case broadcast2 (\<and>) (map (\<lambda>v. v = k) x) (map (\<lambda>v. v = int k) y) of
        Inl e \<Rightarrow> 0 | Inr ab \<Rightarrow> sum_bool ab)"

definition union_count :: "nat \<Rightarrow> nat list \<Rightarrow> int list \<Rightarrow> nat" where
  "union_count k x y =
     (case broadcast2 (\<or>) (map (\<lambda>v. v = k) x) (map (\<lambda>v. v = int k) y) of
        Inl e \<Rightarrow> 0 | Inr ab \<Rightarrow> sum_bool ab)"

definition adds :: "IoU \<Rightarrow> nat list \<Rightarrow> int list \<Rightarrow> IoU \<Rightarrow> bool" where
  "adds s xl y s' =
     (num_classes s' = num_classes s \<and> smooth s' = smooth s \<and>
      length (inter_t s') = length (inter_t s) \<and> length (union_t s') = length (union_t s) \<and>
      (\<forall>k<num_classes s.
         inter_t s' ! k = inter_t s ! k + real (inter_count k xl y) \<and>
         union_t s' ! k = union_t s ! k + real (union_count k xl y)))"

text \<open>
  The words of the specification of \<open>score\<close>: the per-class ratio, the classes whose
  ratio is finite, and the arithmetic mean of the ratios of exactly those classes
  (NaN, the mean of nothing, when there is no such class).
\<close>

definition ratio :: "IoU \<Rightarrow> nat \<Rightarrow> real" where
  "ratio s k = inter_t s ! k / union_t s ! k"

definition finite_classes :: "IoU \<Rightarrow> nat list" where
  "finite_classes s =
     filter (\<lambda>k. isfinite (fdiv (inter_t s ! k) (union_t s ! k))) [0..<num_classes s]"

definition mean_of_finite_ratios :: "IoU \<Rightarrow> fval" where
  "mean_of_finite_ratios s =
     (if finite_classes s = [] then NaN
      else Fin (sum_list (map (ratio s) (finite_classes s)) / real (length (finite_classes s))))"

text \<open>The counters of every class lie between the smoothing constant and each other.\<close>

definition counters_ordered :: "IoU \<Rightarrow> bool" where
  "counters_ordered s =
     (well_formed s \<and>
      (\<forall>k<num_classes s. smooth s \<le> inter_t s ! k \<and> inter_t s ! k \<le> union_t s ! k))"

text \<open>Class \<open>k\<close> occurs in no predicted label and in no target of the mini-batches \<open>bs\<close>.\<close>

definition unseen :: "nat \<Rightarrow> (real list list list \<times> int list) list \<Rightarrow> bool" where
  "unseen k bs =
     list_all (\<lambda>xy. case argmax_dim1 (fst xy) of Inl e \<Rightarrow> True
                    | Inr xl \<Rightarrow> k \<notin> set xl \<and> int k \<notin> set (snd xy)) bs"

section \<open>Feature propagation: interpolation weights\<close>

text \<open>
  Lines 161 to 163 of \<open>FeaturePropagation.forward\<close>, on the squared distances
  \<open>sqdist\<close> of shape \<open>[B, Nq, K]\<close> that \<open>F.knn\<close> returned (finite floats,
  idealised as reals): the masked assignment \<open>sqdist[sqdist < 1e-10] = 1e-10\<close>,
  \<open>torch.reciprocal\<close> (which only ever sees the clamped, positive entries), and the
  division by \<open>torch.sum(weight, dim=-1, keepdim=True)\<close>, whose last axis of size one
  is broadcast along \<open>K\<close>.
\<close>

type_synonym tensor3 = "real list list list"

definition eps :: real where
  "eps = 1 / 10 ^ 10"

definition clamp_below :: "tensor3 \<Rightarrow> tensor3" where
  "clamp_below sqdist = map (map (map (\<lambda>d. if d < eps then eps else d))) sqdist"

definition reciprocal :: "tensor3 \<Rightarrow> tensor3" where
  "reciprocal t = map (map (map (\<lambda>d. 1 / d))) t"

definition sum_keepdim :: "tensor3 \<Rightarrow> tensor3" where
  "sum_keepdim t = map (map (\<lambda>row. [sum_list row])) t"

definition div_keepdim :: "tensor3 \<Rightarrow> tensor3 \<Rightarrow> tensor3" where
  "div_keepdim t u = map2 (map2 (\<lambda>row srow. map (\<lambda>v. v / hd srow) row)) t u"

definition FeaturePropagation_weight :: "tensor3 \<Rightarrow> tensor3" where
  "FeaturePropagation_weight sqdist =
     (let sqdist = clamp_below sqdist;
          weight = reciprocal sqdist;
          weight = div_keepdim weight (sum_keepdim weight)
      in weight)"

text \<open>The weights of one query point, in the words of the specification.\<close>

definition row_weight :: "real list \<Rightarrow> real list" where
  "row_weight ds = map (\<lambda>d. (1 / max d eps) / sum_list (map (\<lambda>d'. 1 / max d' eps) ds)) ds"

section \<open>Shapes of tensors\<close>

text \<open>
  The features that a layer computes depend on its learned weights, which are not part
  of the layer's code. What the code of a \<open>forward\<close> fixes is the shape of every
  intermediate tensor and whether an operation accepts its arguments, so a float tensor
  is represented here by its shape, and every tensor operation by its rule for shapes.
\<close>

type_synonym shape = "nat list"

datatype pyval = Tensor shape | Tuple "pyval list"

definition and_then :: "error + 'a \<Rightarrow> ('a \<Rightarrow> error + 'b) \<Rightarrow> error + 'b" where
  "and_then r f = (case r of Inl e \<Rightarrow> Inl e | Inr v \<Rightarrow> f v)"

definition numel :: "shape \<Rightarrow> nat" where
  "numel s = prod_list s"

text \<open>A dimension argument counts from the end when it is negative.\<close>

definition norm_dim :: "int \<Rightarrow> nat \<Rightarrow> error + nat" where
  "norm_dim d r =
     (if 0 \<le> d \<and> d < int r then Inr (nat d)
      else if - int r \<le> d \<and> d < 0 then Inr (nat (int r + d))
      else Inl IndexError)"

text \<open>\<open>x.shape[0]\<close>\<close>

definition shape0 :: "shape \<Rightarrow> error + nat" where
  "shape0 s = (case s of [] \<Rightarrow> Inl IndexError | b # _ \<Rightarrow> Inr b)"

definition permute :: "nat list \<Rightarrow> shape \<Rightarrow> error + shape" where
  "permute dims s =
     (if length dims = length s \<and> distinct dims \<and> list_all (\<lambda>d. d < length s) dims
      then Inr (map (\<lambda>d. s ! d) dims) else Inl RuntimeError)"

definition unsqueeze :: "nat \<Rightarrow> shape \<Rightarrow> error + shape" where
  "unsqueeze d s = (if d \<le> length s then Inr (take d s @ [1] @ drop d s) else Inl IndexError)"

definition squeeze :: "nat \<Rightarrow> shape \<Rightarrow> error + shape" where
  "squeeze d s =
     (if \<not> d < length s then Inl IndexError
      else if s ! d = 1 then Inr (take d s @ drop (Suc d) s) else Inr s)"

definition repeat :: "nat list \<Rightarrow> shape \<Rightarrow> error + shape" where
  "repeat reps s =
     (if length reps < length s then Inl RuntimeError
      else Inr (map2 (\<lambda>r d. r * d) reps (replicate (length reps - length s) 1 @ s)))"

text \<open>
  \<open>x.view(dims)\<close>: at most one entry of \<open>dims\<close> is \<open>-1\<close> and is inferred from the
  number of elements; it cannot be inferred when the other entries multiply to zero.
  (The layers only view tensors that are contiguous or sliced along their last axis, and
  merge or split axes in a way the strides of such tensors allow.)
\<close>

definition view :: "int list \<Rightarrow> shape \<Rightarrow> error + shape" where
  "view dims s =
     (let known = prod_list (map nat (filter (\<lambda>d. d \<noteq> - 1) dims));
          holes = length (filter (\<lambda>d. d = - 1) dims)
      in if list_ex (\<lambda>d. d < - 1) dims then Inl RuntimeError
         else if holes = 0 then (if known = numel s then Inr (map nat dims) else Inl RuntimeError)
         else if holes = 1 then
           (if known = 0 \<or> numel s mod known \<noteq> 0 then Inl RuntimeError
            else Inr (map (\<lambda>d. if d = - 1 then numel s div known else nat d) dims))
         else Inl RuntimeError)"

text \<open>The shape of an elementwise operation on two tensors, aligned at the last axis.\<close>

fun broadcast_rev :: "nat list \<Rightarrow> nat list \<Rightarrow> error + nat list" where
  "broadcast_rev [] ys = Inr ys"
| "broadcast_rev (x # xs) [] = Inr (x # xs)"
| "broadcast_rev (x # xs) (y # ys) =
     (if x = y \<or> y = 1 then and_then (broadcast_rev xs ys) (\<lambda>r. Inr (x # r))
      else if x = 1 then and_then (broadcast_rev xs ys) (\<lambda>r. Inr (y # r))
      else Inl RuntimeError)"

definition broadcast_shapes :: "shape \<Rightarrow> shape \<Rightarrow> error + shape" where
  "broadcast_shapes s t = and_then (broadcast_rev (rev s) (rev t)) (\<lambda>r. Inr (rev r))"

text \<open>\<open>torch.cat(ts, dim)\<close>: the tensors agree on every axis but \<open>dim\<close>.\<close>

definition cat :: "shape list \<Rightarrow> int \<Rightarrow> error + shape" where
  "cat ts axis =
     (case ts of [] \<Rightarrow> Inl RuntimeError
      | s # rest \<Rightarrow>
          and_then (norm_dim axis (length s)) (\<lambda>k.
            if list_all (\<lambda>t. length t = length s \<and> t[k := 0] = s[k := 0]) rest
            then Inr (s[k := sum_list (map (\<lambda>t. t ! k) ts)])
            else Inl RuntimeError))"

text \<open>\<open>torch.max(x, dim)[0]\<close>: the axis is dropped; reducing an empty axis raises.\<close>

definition max_dim :: "int \<Rightarrow> shape \<Rightarrow> error + shape" where
  "max_dim axis s =
     and_then (norm_dim axis (length s)) (\<lambda>k.
       if s ! k = 0 then Inl IndexError else Inr (take k s @ drop (Suc k) s))"

text \<open>
  \<open>torch.matmul\<close> of two tensors of rank at least two (the only case that the layers
  reach): a batched matrix product, the leading axes broadcast.
\<close>

definition matmul :: "shape \<Rightarrow> shape \<Rightarrow> error + shape" where
  "matmul s t =
     (if length s < 2 \<or> length t < 2 then Inl RuntimeError
      else if last s \<noteq> t ! (length t - 2) then Inl RuntimeError
      else and_then (broadcast_shapes (butlast (butlast s)) (butlast (butlast t)))
             (\<lambda>b. Inr (b @ [s ! (length s - 2), last t])))"

text \<open>\<open>index[..., ::step]\<close>: every \<open>step\<close>-th entry of the last axis.\<close>

definition slice_last_shape :: "nat \<Rightarrow> shape \<Rightarrow> error + shape" where
  "slice_last_shape step s =
     (if step = 0 then Inl ValueError
      else if s = [] then Inl IndexError
      else Inr (butlast s @ [(last s + step - 1) div step]))"

subsection \<open>Modules of the network library\<close>

text \<open>
  \<open>nn.Conv2d(cin, cout, [kh, kw])\<close> with stride one and no padding, on the batched
  input of rank four that every layer feeds it. \<open>nn.BatchNorm2d\<close> checks the channel
  axis and keeps the shape; while the module is in training mode (the flag \<open>training\<close>
  that every \<open>nn.Module\<close> carries) it refuses an input with exactly one value per
  channel. The activations keep every shape.
\<close>

definition Conv2d :: "nat \<Rightarrow> nat \<Rightarrow> nat \<Rightarrow> nat \<Rightarrow> shape \<Rightarrow> error + shape" where
  "Conv2d cin cout kh kw s =
     (case s of
        [b, c, h, w] \<Rightarrow>
          if c = cin \<and> 0 < kh \<and> 0 < kw \<and> kh \<le> h \<and> kw \<le> w
          then Inr [b, cout, h - kh + 1, w - kw + 1] else Inl RuntimeError
      | _ \<Rightarrow> Inl RuntimeError)"

definition BatchNorm2d :: "nat \<Rightarrow> bool \<Rightarrow> shape \<Rightarrow> error + shape" where
  "BatchNorm2d c train s =
     (case s of
        [b, c', h, w] \<Rightarrow>
          if c' \<noteq> c then Inl RuntimeError
          else if train \<and> b * h * w = 1 then Inl ValueError
          else Inr s
      | _ \<Rightarrow> Inl RuntimeError)"

definition Conv1d :: "nat \<Rightarrow> nat \<Rightarrow> nat \<Rightarrow> shape \<Rightarrow> error + shape" where
  "Conv1d cin cout kw s =
     (case s of
        [b, c, l] \<Rightarrow>
          if c = cin \<and> 0 < kw \<and> kw \<le> l then Inr [b, cout, l - kw + 1] else Inl RuntimeError
      | _ \<Rightarrow> Inl RuntimeError)"

definition BatchNorm1d :: "nat \<Rightarrow> bool \<Rightarrow> shape \<Rightarrow> error + shape" where
  "BatchNorm1d c train s =
     (case s of
        [b, c', l] \<Rightarrow>
          if c' \<noteq> c then Inl RuntimeError
          else if train \<and> b * l = 1 then Inl ValueError
          else Inr s
      | _ \<Rightarrow> Inl RuntimeError)"

definition ReLU :: "shape \<Rightarrow> error + shape" where
  "ReLU s = Inr s"

definition LeakyReLU :: "shape \<Rightarrow> error + shape" where
  "LeakyReLU s = Inr s"

text \<open>
  \<open>nn.MaxPool2d([1, k])\<close>: the stride is the kernel, there is no padding and the
  window count is rounded down. A kernel entry \<open>None\<close> is only noticed when the module
  is applied.
\<close>

definition MaxPool2d :: "nat option \<Rightarrow> shape \<Rightarrow> error + shape" where
  "MaxPool2d k s =
     (case k of None \<Rightarrow> Inl TypeError
      | Some kw \<Rightarrow>
         (case s of
            [b, c, h, w] \<Rightarrow>
              if kw = 0 \<or> c = 0 \<or> h = 0 \<or> w < kw then Inl RuntimeError
              else Inr [b, c, h, (w - kw) div kw + 1]
          | _ \<Rightarrow> Inl RuntimeError))"

text \<open>What the pooling does to the values of one row of the pooled axis.\<close>

definition maxpool_row :: "nat \<Rightarrow> real list \<Rightarrow> error + real list" where
  "maxpool_row kw row =
     (if kw = 0 \<or> length row < kw then Inl RuntimeError
      else Inr (map (\<lambda>j. Max (set (take kw (drop (j * kw) row))))
                  [0..<(length row - kw) div kw + 1]))"

subsection \<open>Geometric operations of \<open>torch3d.nn.functional\<close>\<close>

text \<open>
  Modelled from the spec: \<open>F.knn(p, q, k)\<close>, whose code is not among the sources.
  Given reference points \<open>p\<close> of shape \<open>[B, Np, D]\<close> and query points \<open>q\<close> of shape
  \<open>[B, Nq, D]\<close> it returns the squared distances and the indices of the \<open>k\<close> closest
  reference points of every query point, both of shape \<open>[B, Nq, k]\<close>; it fails when
  \<open>k\<close> exceeds the number of reference points.
\<close>

definition knn :: "shape \<Rightarrow> shape \<Rightarrow> nat \<Rightarrow> error + shape \<times> shape" where
  "knn p q k =
     (case p of
        [b, np, d] \<Rightarrow>
          (case q of
             [b', nq, d'] \<Rightarrow>
               if b = b' \<and> d = d' \<and> k \<le> np then Inr ([b, nq, k], [b, nq, k])
               else Inl RuntimeError
           | _ \<Rightarrow> Inl RuntimeError)
      | _ \<Rightarrow> Inl RuntimeError)"

text \<open>
  Modelled from the spec: \<open>F.ball_point(p, q, radius, k)\<close>, whose code is not among
  the sources. It returns, for every query point, exactly \<open>k\<close> indices of reference
  points within the radius: a tensor of shape \<open>[B, Nq, k]\<close>.
\<close>

definition ball_point :: "shape \<Rightarrow> shape \<Rightarrow> real \<Rightarrow> nat option \<Rightarrow> error + shape" where
  "ball_point p q radius k =
     (case k of None \<Rightarrow> Inl TypeError
      | Some k' \<Rightarrow>
        (case p of
           [b, np, d] \<Rightarrow>
             (case q of
                [b', nq, d'] \<Rightarrow>
                  if b = b' \<and> d = d' then Inr [b, nq, k'] else Inl RuntimeError
              | _ \<Rightarrow> Inl RuntimeError)
         | _ \<Rightarrow> Inl RuntimeError))"

text \<open>
  Modelled from the spec: \<open>F.batched_index_select(x, dim, index)\<close>, whose code is not
  among the sources. Given a source of shape \<open>[B, N, D]\<close> and indices of shape
  \<open>[B, M]\<close> it returns the selected rows, a tensor of shape \<open>[B, M, D]\<close>; the layers
  call it with \<open>dim = 1\<close> only.
\<close>

definition batched_index_select :: "shape \<Rightarrow> nat \<Rightarrow> shape \<Rightarrow> error + shape" where
  "batched_index_select x axis index =
     (case x of
        [b, n, d] \<Rightarrow>
          (case index of
             [b', m] \<Rightarrow> if b = b' \<and> axis = 1 then Inr [b, m, d] else Inl RuntimeError
           | _ \<Rightarrow> Inl RuntimeError)
      | _ \<Rightarrow> Inl RuntimeError)"

text \<open>
  Modelled from the spec: \<open>F.point_interpolate(x, index, weight)\<close>, whose code is not
  among the sources. Given sparse features of shape \<open>[B, C, Np]\<close>, indices and weights
  of shape \<open>[B, Nq, K]\<close> it returns dense features of shape \<open>[B, C, Nq]\<close>.
\<close>

definition point_interpolate :: "shape \<Rightarrow> shape \<Rightarrow> shape \<Rightarrow> error + shape" where
  "point_interpolate x index weight =
     (case x of
        [b, c, np] \<Rightarrow>
          (case index of
             [b', nq, k] \<Rightarrow>
               if b = b' \<and> weight = index then Inr [b, c, nq] else Inl RuntimeError
           | _ \<Rightarrow> Inl RuntimeError)
      | _ \<Rightarrow> Inl RuntimeError)"

section \<open>The layers\<close>

text \<open>
  A layer is the record of the attributes that its constructor sets, together with the
  flag \<open>training\<close> that it inherits from \<open>nn.Module\<close>. Each \<open>forward\<close> below follows
  its source line by line; a line that can raise is a step of \<open>and_then\<close>.
\<close>

subsection \<open>EdgeConv\<close>

record EdgeConv =
  in_channels :: nat
  out_channels :: nat
  kernel_size :: nat
  bias :: bool
  training :: bool

text \<open>The \<open>nn.Sequential\<close> stored in \<open>self.conv\<close>.\<close>

definition EdgeConv_conv :: "EdgeConv \<Rightarrow> shape \<Rightarrow> error + shape" where
  "EdgeConv_conv m x =
     and_then (Conv2d (EdgeConv.in_channels m * 2) (EdgeConv.out_channels m) 1 1 x) (\<lambda>x.
     and_then (BatchNorm2d (EdgeConv.out_channels m) (EdgeConv.training m) x) (\<lambda>x.
     LeakyReLU x))"

definition EdgeConv_forward :: "EdgeConv \<Rightarrow> shape \<Rightarrow> error + pyval" where
  "EdgeConv_forward m x =
     and_then (shape0 x) (\<lambda>batch_size.
     and_then (permute [0, 2, 1] x) (\<lambda>x.
     and_then (knn x x (EdgeConv.kernel_size m)) (\<lambda>(sqdist, index).
     let views = map int index @ [- 1] in
     and_then (view [int batch_size, - 1] index) (\<lambda>flat.
     and_then (batched_index_select x 1 flat) (\<lambda>x_hat.
     and_then (view views x_hat) (\<lambda>x_hat.
     and_then (unsqueeze 2 x) (\<lambda>x.
     and_then (repeat [1, 1, EdgeConv.kernel_size m, 1] x) (\<lambda>x.
     and_then (broadcast_shapes x_hat x) (\<lambda>x_hat.
     and_then (cat [x, x_hat] (- 1)) (\<lambda>x.
     and_then (permute [0, 3, 1, 2] x) (\<lambda>x.
     and_then (EdgeConv_conv m x) (\<lambda>x.
     and_then (max_dim (- 1) x) (\<lambda>x.
     Inr (Tensor x))))))))))))))"

subsection \<open>XConv\<close>

record XConv =
  in_channels :: nat
  out_channels :: nat
  kernel_size :: nat
  dilation :: nat
  bias :: bool
  training :: bool

definition mid_channels :: "XConv \<Rightarrow> nat" where
  "mid_channels m = XConv.out_channels m div 4"

definition XConv_mlp :: "XConv \<Rightarrow> shape \<Rightarrow> error + shape" where
  "XConv_mlp m x =
     and_then (Conv2d 3 (mid_channels m) 1 1 x) (\<lambda>x.
     and_then (BatchNorm2d (mid_channels m) (XConv.training m) x) (\<lambda>x.
     and_then (ReLU x) (\<lambda>x.
     and_then (Conv2d (mid_channels m) (mid_channels m) 1 1 x) (\<lambda>x.
     and_then (BatchNorm2d (mid_channels m) (XConv.training m) x) (\<lambda>x.
     ReLU x)))))"

definition XConv_stn :: "XConv \<Rightarrow> shape \<Rightarrow> error + shape" where
  "XConv_stn m x =
     (let kk = (XConv.kernel_size m)\<^sup>2 in
     and_then (Conv2d 3 kk 1 (XConv.kernel_size m) x) (\<lambda>x.
     and_then (BatchNorm2d kk (XConv.training m) x) (\<lambda>x.
     and_then (ReLU x) (\<lambda>x.
     and_then (Conv2d kk kk 1 1 x) (\<lambda>x.
     and_then (BatchNorm2d kk (XConv.training m) x) (\<lambda>x.
     and_then (ReLU x) (\<lambda>x.
     Conv2d kk kk 1 1 x)))))))"

definition XConv_conv :: "XConv \<Rightarrow> shape \<Rightarrow> error + shape" where
  "XConv_conv m x =
     and_then (Conv2d (XConv.in_channels m + mid_channels m) (XConv.out_channels m)
                 1 (XConv.kernel_size m) x) (\<lambda>x.
     and_then (BatchNorm2d (XConv.out_channels m) (XConv.training m) x) (\<lambda>x.
     ReLU x))"

definition XConv_forward :: "XConv \<Rightarrow> shape \<Rightarrow> shape \<Rightarrow> shape option \<Rightarrow> error + pyval" where
  "XConv_forward m p q x =
     and_then (shape0 p) (\<lambda>batch_size.
     and_then (knn p q (XConv.kernel_size m * dilation m)) (\<lambda>(sqdist, index).
     and_then (slice_last_shape (dilation m) index) (\<lambda>index.
     let views = map int index @ [- 1] in
     and_then (view [int batch_size, - 1] index) (\<lambda>flat.
     and_then (batched_index_select p 1 flat) (\<lambda>p.
     and_then (view views p) (\<lambda>p.
     and_then (unsqueeze 2 q) (\<lambda>q2.
     and_then (broadcast_shapes p q2) (\<lambda>p_hat.
     and_then (permute [0, 3, 1, 2] p_hat) (\<lambda>p_hat.
     and_then (XConv_mlp m p_hat) (\<lambda>x_hat.
     and_then (permute [0, 2, 3, 1] x_hat) (\<lambda>x_hat.
     and_then (case x of None \<Rightarrow> Inr x_hat
               | Some x \<Rightarrow>
                   and_then (permute [0, 2, 1] x) (\<lambda>x.
                   and_then (view [int batch_size, - 1] index) (\<lambda>flat.
                   and_then (batched_index_select x 1 flat) (\<lambda>x.
                   and_then (view views x) (\<lambda>x.
                   cat [x_hat, x] (- 1)))))) (\<lambda>x_hat.
     and_then (XConv_stn m p_hat) (\<lambda>T.
     and_then (view [int batch_size, int (XConv.kernel_size m),
                     int (XConv.kernel_size m), - 1] T) (\<lambda>T.
     and_then (permute [0, 3, 1, 2] T) (\<lambda>T.
     and_then (matmul T x_hat) (\<lambda>x_hat.
     let x = x_hat in
     and_then (permute [0, 3, 1, 2] x) (\<lambda>x.
     and_then (XConv_conv m x) (\<lambda>x.
     and_then (squeeze 3 x) (\<lambda>x.
     Inr (Tuple [Tensor q, Tensor x]))))))))))))))))))))"

text \<open>
  Lines 77 and 78 of \<open>XConv.forward\<close> on the values of the index tensor. The
  neighbour search is a parameter: \<open>search k\<close> stands for \<open>F.knn(p, q, k)[1]\<close>, the
  indices of the \<open>k\<close> nearest reference points of every query point, nearest first.
\<close>

definition slice_step :: "nat \<Rightarrow> 'a list \<Rightarrow> 'a list" where
  "slice_step step xs = map (\<lambda>j. xs ! (j * step)) [0..<(length xs + step - 1) div step]"

definition slice_last :: "nat \<Rightarrow> 'a list list list \<Rightarrow> error + 'a list list list" where
  "slice_last step index =
     (if step = 0 then Inl ValueError else Inr (map (map (slice_step step)) index))"

definition XConv_index :: "XConv \<Rightarrow> (nat \<Rightarrow> error + nat list list list) \<Rightarrow> error + nat list list list" where
  "XConv_index m search =
     and_then (search (XConv.kernel_size m * dilation m)) (\<lambda>index.
     slice_last (dilation m) index)"

subsection \<open>SetAbstraction\<close>

record SetAbstraction =
  in_channels :: nat
  mlp :: "nat list"
  radius :: "real option"
  k :: "nat option"
  bias :: bool
  training :: bool

text \<open>
  The stack of modules that the constructor builds from the list \<open>mlp\<close>, applied in
  the mode \<open>train\<close> of the layer.
\<close>

fun mlp2d :: "bool \<Rightarrow> nat \<Rightarrow> nat list \<Rightarrow> shape \<Rightarrow> error + shape" where
  "mlp2d train last_channels [] x = Inr x"
| "mlp2d train last_channels (channels # rest) x =
     and_then (Conv2d last_channels channels 1 1 x) (\<lambda>x.
     and_then (BatchNorm2d channels train x) (\<lambda>x.
     and_then (ReLU x) (\<lambda>x.
     mlp2d train channels rest x)))"

definition SetAbstraction_mlp :: "SetAbstraction \<Rightarrow> shape \<Rightarrow> error + shape" where
  "SetAbstraction_mlp m x =
     mlp2d (SetAbstraction.training m) (SetAbstraction.in_channels m) (SetAbstraction.mlp m) x"

definition SetAbstraction_maxpool :: "SetAbstraction \<Rightarrow> shape \<Rightarrow> error + shape" where
  "SetAbstraction_maxpool m x = MaxPool2d (SetAbstraction.k m) x"

text \<open>
  In the group-all branch the names \<open>index\<close> and \<open>views\<close> are unbound and never
  read; they are empty here.
\<close>

definition SetAbstraction_forward ::
  "SetAbstraction \<Rightarrow> shape \<Rightarrow> shape \<Rightarrow> shape option \<Rightarrow> error + pyval" where
  "SetAbstraction_forward m p q x =
     and_then (shape0 p) (\<lambda>batch_size.
     and_then (case radius m of
                 Some r \<Rightarrow>
                   and_then (ball_point p q r (SetAbstraction.k m)) (\<lambda>index.
                   let views = map int index @ [- 1] in
                   and_then (view [int batch_size, - 1] index) (\<lambda>flat.
                   and_then (batched_index_select p 1 flat) (\<lambda>p.
                   and_then (view views p) (\<lambda>p.
                   and_then (unsqueeze 2 q) (\<lambda>q2.
                   and_then (broadcast_shapes p q2) (\<lambda>p_hat.
                   let x_hat = p_hat in
                   Inr (x_hat, index, views)))))))
               | None \<Rightarrow> and_then (unsqueeze 1 p) (\<lambda>x_hat. Inr (x_hat, [], [])))
       (\<lambda>(x_hat, index, views).
     and_then (case x of None \<Rightarrow> Inr x_hat
               | Some x \<Rightarrow>
                   and_then (case radius m of
                               Some r \<Rightarrow>
                                 and_then (permute [0, 2, 1] x) (\<lambda>x.
                                 and_then (view [int batch_size, - 1] index) (\<lambda>flat.
                                 and_then (batched_index_select x 1 flat) (\<lambda>x.
                                 view views x)))
                             | None \<Rightarrow> unsqueeze 1 x) (\<lambda>x.
                   cat [x_hat, x] (- 1))) (\<lambda>x_hat.
     and_then (permute [0, 3, 1, 2] x_hat) (\<lambda>x.
     and_then (SetAbstraction_mlp m x) (\<lambda>x.
     and_then (SetAbstraction_maxpool m x) (\<lambda>x.
     and_then (squeeze 3 x) (\<lambda>x.
     Inr (Tuple [Tensor q, Tensor x]))))))))"

subsection \<open>FeaturePropagation\<close>

record FeaturePropagation =
  in_channels :: nat
  mlp :: "nat list"
  k :: nat
  bias :: bool
  training :: bool

fun mlp1d :: "bool \<Rightarrow> nat \<Rightarrow> nat list \<Rightarrow> shape \<Rightarrow> error + shape" where
  "mlp1d train last_channels [] x = Inr x"
| "mlp1d train last_channels (channels # rest) x =
     and_then (Conv1d last_channels channels 1 x) (\<lambda>x.
     and_then (BatchNorm1d channels train x) (\<lambda>x.
     and_then (ReLU x) (\<lambda>x.
     mlp1d train channels rest x)))"

definition FeaturePropagation_mlp :: "FeaturePropagation \<Rightarrow> shape \<Rightarrow> error + shape" where
  "FeaturePropagation_mlp m x =
     mlp1d (FeaturePropagation.training m) (FeaturePropagation.in_channels m)
       (FeaturePropagation.mlp m) x"

text \<open>
  The clamping, the reciprocal and the normalisation keep the shape of \<open>sqdist\<close>;
  their values are those of \<open>FeaturePropagation_weight\<close>.
\<close>

definition FeaturePropagation_forward ::
  "FeaturePropagation \<Rightarrow> shape \<Rightarrow> shape \<Rightarrow> shape \<Rightarrow> shape option \<Rightarrow> error + pyval" where
  "FeaturePropagation_forward m p q x y =
     and_then (knn p q (FeaturePropagation.k m)) (\<lambda>(sqdist, index).
     let weight = sqdist in
     and_then (broadcast_shapes weight (butlast weight @ [1])) (\<lambda>weight.
     and_then (point_interpolate x index weight) (\<lambda>x.
     and_then (case y of None \<Rightarrow> Inr x | Some y \<Rightarrow> cat [x, y] 1) (\<lambda>x.
     and_then (FeaturePropagation_mlp m x) (\<lambda>x.
     Inr (Tuple [Tensor q, Tensor x]))))))"


section \<open>Vocabulary of the properties of the layers\<close>

text \<open>A returned value that is a pair.\<close>

fun is_pair :: "pyval \<Rightarrow> bool" where
  "is_pair (Tuple [a, b]) = True"
| "is_pair v = False"

text \<open>\<open>returns P r\<close>: if the call \<open>r\<close> returns a value at all, the value satisfies \<open>P\<close>.\<close>

definition returns :: "(pyval \<Rightarrow> bool) \<Rightarrow> error + pyval \<Rightarrow> bool" where
  "returns P r = (case r of Inl e \<Rightarrow> True | Inr v \<Rightarrow> P v)"

section \<open>Lemmas about the tensor primitives\<close>


lemma compatible_map [simp]: "compatible (map f xs) (map g ys) = compatible xs ys"
  by (simp add: compatible_def)

lemma broadcast2_cases:
  assumes "broadcast2 f xs ys = Inr zs"
  shows "(length xs = length ys \<and> zs = map2 f xs ys)
       \<or> (length xs = 1 \<and> zs = map (f (hd xs)) ys)
       \<or> (length ys = 1 \<and> zs = map (\<lambda>a. f a (hd ys)) xs)"
  using assms unfolding broadcast2_def by (simp split: if_splits)

lemma hd_in_set1: "length xs = 1 \<Longrightarrow> hd xs \<in> set xs"
  by (cases xs) simp_all

lemma broadcast2_set:
  assumes "broadcast2 f xs ys = Inr zs" "z \<in> set zs"
  shows "\<exists>a\<in>set xs. \<exists>b\<in>set ys. z = f a b"
proof -
  from broadcast2_cases [OF assms(1)]
  consider (eq) "length xs = length ys" "zs = map2 f xs ys"
    | (l) "length xs = 1" "zs = map (f (hd xs)) ys"
    | (r) "length ys = 1" "zs = map (\<lambda>a. f a (hd ys)) xs"
    by blast
  then show ?thesis
  proof cases
    case eq
    from assms(2) obtain i where i: "i < length xs" "i < length ys" "z = f (xs ! i) (ys ! i)"
      unfolding eq(2) by (auto simp: set_zip)
    from i(1) have "xs ! i \<in> set xs" by (rule nth_mem)
    moreover from i(2) have "ys ! i \<in> set ys" by (rule nth_mem)
    ultimately show ?thesis using i(3) by blast
  next
    case l
    from l(1) have "hd xs \<in> set xs" by (rule hd_in_set1)
    moreover from assms(2) obtain b where "b \<in> set ys" "z = f (hd xs) b"
      unfolding l(2) by auto
    ultimately show ?thesis by blast
  next
    case r
    from r(1) have "hd ys \<in> set ys" by (rule hd_in_set1)
    moreover from assms(2) obtain a where "a \<in> set xs" "z = f a (hd ys)"
      unfolding r(2) by auto
    ultimately show ?thesis by blast
  qed
qed

lemma sum_bool_mono:
  "length as = length bs \<Longrightarrow> (\<And>i. i < length as \<Longrightarrow> as ! i \<Longrightarrow> bs ! i) \<Longrightarrow>
     sum_bool as \<le> sum_bool bs"
proof (induction as bs rule: list_induct2)
  case Nil
  then show ?case by (simp add: sum_bool_def)
next
  case (Cons a as b bs)
  have "sum_bool as \<le> sum_bool bs"
    using Cons.prems [of "Suc i" for i] by (intro Cons.IH) auto
  moreover have "a \<Longrightarrow> b" using Cons.prems [of 0] by simp
  ultimately show ?case by (auto simp: sum_bool_def)
qed

lemma sum_bool_zero: "(\<And>b. b \<in> set bs \<Longrightarrow> \<not> b) \<Longrightarrow> sum_bool bs = 0"
  by (induction bs) (auto simp: sum_bool_def)



lemma isfinite_fdiv [simp]: "isfinite (fdiv a b) = (b \<noteq> 0)"
  by (simp add: fdiv_def)

lemma fin_val_fdiv: "b \<noteq> 0 \<Longrightarrow> fin_val (fdiv a b) = a / b"
  by (simp add: fdiv_def)

lemma torch_mean_eq:
  "torch_mean rs = (if rs = [] then NaN else Fin (sum_list rs / real (length rs)))"
  by (simp add: torch_mean_def fdiv_def)

lemma map2_nth_upt:
  "length xs = n \<Longrightarrow> length ys = n \<Longrightarrow> map2 f xs ys = map (\<lambda>cl. f (xs ! cl) (ys ! cl)) [0..<n]"
  by (auto intro!: nth_equalityI)

section \<open>What one update adds\<close>





lemma inter_count_le_union_count: "inter_count cl x y \<le> union_count cl x y"
  unfolding inter_count_def union_count_def broadcast2_def
  by (auto intro!: sum_bool_mono)

lemma inter_count_unseen:
  assumes "cl \<notin> set x"
  shows "inter_count cl x y = 0"
proof (cases "broadcast2 (\<and>) (map (\<lambda>v. v = cl) x) (map (\<lambda>v. v = int cl) y)")
  case (Inl e)
  then show ?thesis by (simp add: inter_count_def)
next
  case (Inr ab)
  have "\<not> b" if "b \<in> set ab" for b
    using broadcast2_set [OF Inr that] assms by auto
  then have "sum_bool ab = 0" by (rule sum_bool_zero)
  with Inr show ?thesis by (simp add: inter_count_def)
qed

lemma union_count_unseen:
  assumes "cl \<notin> set x" "int cl \<notin> set y"
  shows "union_count cl x y = 0"
proof (cases "broadcast2 (\<or>) (map (\<lambda>v. v = cl) x) (map (\<lambda>v. v = int cl) y)")
  case (Inl e)
  then show ?thesis by (simp add: union_count_def)
next
  case (Inr ab)
  have "\<not> b" if "b \<in> set ab" for b
    using broadcast2_set [OF Inr that] assms by auto
  then have "sum_bool ab = 0" by (rule sum_bool_zero)
  with Inr show ?thesis by (simp add: union_count_def)
qed

lemma update_classes_Cons_Inr:
  assumes "update_classes (cl # ks) x y s = Inr s'"
  obtains ab aob where
    "cl < length (inter_t s)" "cl < length (union_t s)"
    "broadcast2 (\<and>) (map (\<lambda>v. v = cl) x) (map (\<lambda>v. v = int cl) y) = Inr ab"
    "broadcast2 (\<or>) (map (\<lambda>v. v = cl) x) (map (\<lambda>v. v = int cl) y) = Inr aob"
    "update_classes ks x y
       (s\<lparr>inter_t := (inter_t s)[cl := inter_t s ! cl + real (sum_bool ab)],
          union_t := (union_t s)[cl := union_t s ! cl + real (sum_bool aob)]\<rparr>) = Inr s'"
  using assms by (auto simp: Let_def split: if_splits sum.splits)

lemma update_classes_fields:
  "update_classes ks x y s = Inr s' \<Longrightarrow>
     num_classes s' = num_classes s \<and> smooth s' = smooth s \<and>
     length (inter_t s') = length (inter_t s) \<and> length (union_t s') = length (union_t s)"
proof (induction ks arbitrary: s)
  case Nil
  then show ?case by simp
next
  case (Cons cl ks)
  from Cons.prems show ?case
    by (elim update_classes_Cons_Inr) (drule Cons.IH, simp)
qed

lemma update_classes_nth:
  "update_classes ks x y s = Inr s' \<Longrightarrow> distinct ks \<Longrightarrow>
     inter_t s' ! j = inter_t s ! j + (if j \<in> set ks then real (inter_count j x y) else 0) \<and>
     union_t s' ! j = union_t s ! j + (if j \<in> set ks then real (union_count j x y) else 0)"
proof (induction ks arbitrary: s)
  case Nil
  then show ?case by simp
next
  case (Cons cl ks)
  from Cons.prems(1) obtain ab aob where
    cl: "cl < length (inter_t s)" "cl < length (union_t s)" and
    ab: "broadcast2 (\<and>) (map (\<lambda>v. v = cl) x) (map (\<lambda>v. v = int cl) y) = Inr ab" and
    aob: "broadcast2 (\<or>) (map (\<lambda>v. v = cl) x) (map (\<lambda>v. v = int cl) y) = Inr aob" and
    rest: "update_classes ks x y
       (s\<lparr>inter_t := (inter_t s)[cl := inter_t s ! cl + real (sum_bool ab)],
          union_t := (union_t s)[cl := union_t s ! cl + real (sum_bool aob)]\<rparr>) = Inr s'"
    by (rule update_classes_Cons_Inr)
  from Cons.prems(2) have d: "distinct ks" and nk: "cl \<notin> set ks" by simp_all
  note ih = Cons.IH [OF rest d]
  show ?case
  proof (cases "j = cl")
    case True
    with ih cl nk ab aob show ?thesis
      by (simp add: inter_count_def union_count_def)
  next
    case False
    with ih show ?thesis by simp
  qed
qed


text \<open>Every successful \<open>update\<close> adds the two counts of each class to its counters.\<close>

lemma update_adds:
  assumes "update s x y = Inr s'"
  shows "\<exists>xl. argmax_dim1 x = Inr xl \<and> adds s xl y s'"
proof -
  from assms obtain xl where xl: "argmax_dim1 x = Inr xl"
    and u: "update_classes [0..<num_classes s] xl y s = Inr s'"
    by (auto simp: update_def split: sum.splits)
  have "inter_t s' ! cl = inter_t s ! cl + real (inter_count cl xl y) \<and>
        union_t s' ! cl = union_t s ! cl + real (union_count cl xl y)" if "cl < num_classes s" for cl
    using update_classes_nth [OF u, of cl] that by simp
  with update_classes_fields [OF u] have "adds s xl y s'"
    by (simp add: adds_def)
  with xl show ?thesis by blast
qed


lemma adds_well_formed: "adds s xl y s' \<Longrightarrow> well_formed s \<Longrightarrow> well_formed s'"
  by (simp add: adds_def well_formed_def)

lemma well_formed_reset: "well_formed (reset s)"
  by (simp add: well_formed_def reset_def zeros_def)

lemma reset_fields: "num_classes (reset s) = num_classes s" "smooth (reset s) = smooth s"
  by (simp_all add: reset_def)

lemma reset_nth:
  "cl < num_classes s \<Longrightarrow> inter_t (reset s) ! cl = smooth s \<and> union_t (reset s) ! cl = smooth s"
  by (simp add: reset_def zeros_def)

lemma well_formed_update: "well_formed s \<Longrightarrow> update s x y = Inr s' \<Longrightarrow> well_formed s'"
  using update_adds adds_well_formed by blast



section \<open>The score\<close>

lemma finite_values_ratio:
  assumes "well_formed s"
  shows "finite_values (map2 fdiv (inter_t s) (union_t s)) = map (ratio s) (finite_classes s)"
proof -
  have "map2 fdiv (inter_t s) (union_t s)
        = map (\<lambda>cl. fdiv (inter_t s ! cl) (union_t s ! cl)) [0..<num_classes s]"
    using assms by (intro map2_nth_upt) (simp_all add: well_formed_def)
  then show ?thesis
    by (simp add: finite_values_def finite_classes_def filter_map o_def ratio_def fin_val_fdiv
        cong: map_cong)
qed

lemma score_eq_mean_of_finite_ratios: "well_formed s \<Longrightarrow> score s = mean_of_finite_ratios s"
  by (simp add: score_def finite_values_ratio torch_mean_eq mean_of_finite_ratios_def)

lemma finite_classes_iff:
  "cl \<in> set (finite_classes s) \<longleftrightarrow> cl < num_classes s \<and> union_t s ! cl \<noteq> 0"
  by (auto simp: finite_classes_def)

section \<open>Invariants of the counters\<close>

lemma counters_ordered_reset: "counters_ordered (reset s)"
  by (simp add: counters_ordered_def well_formed_reset reset_fields reset_nth)

lemma counters_ordered_update:
  assumes "counters_ordered s" "update s x y = Inr s'"
  shows "counters_ordered s'"
proof -
  from update_adds [OF assms(2)] obtain xl where a: "adds s xl y s'" by blast
  have "smooth s' \<le> inter_t s' ! cl \<and> inter_t s' ! cl \<le> union_t s' ! cl"
    if "cl < num_classes s'" for cl
  proof -
    from that a have cl: "cl < num_classes s" by (simp add: adds_def)
    with assms(1) have "smooth s \<le> inter_t s ! cl" "inter_t s ! cl \<le> union_t s ! cl"
      by (simp_all add: counters_ordered_def)
    moreover have "real (inter_count cl xl y) \<le> real (union_count cl xl y)"
      using inter_count_le_union_count [of cl xl y] by simp
    ultimately show ?thesis using a cl by (simp add: adds_def)
  qed
  moreover have "well_formed s'"
    using assms(1) a by (simp add: counters_ordered_def adds_well_formed)
  ultimately show ?thesis by (simp add: counters_ordered_def)
qed

lemma updates_Cons_Inr:
  assumes "updates s (xy # bs) = Inr s'"
  obtains s1 where "update s (fst xy) (snd xy) = Inr s1" "updates s1 bs = Inr s'"
  using assms by (auto split: sum.splits)

lemma updates_fields:
  "updates s bs = Inr s' \<Longrightarrow> num_classes s' = num_classes s \<and> smooth s' = smooth s"
proof (induction bs arbitrary: s)
  case Nil
  then show ?case by simp
next
  case (Cons xy bs)
  from Cons.prems obtain s1 where
    s1: "update s (fst xy) (snd xy) = Inr s1" "updates s1 bs = Inr s'"
    by (rule updates_Cons_Inr)
  from update_adds [OF s1(1)] have "num_classes s1 = num_classes s" "smooth s1 = smooth s"
    by (auto simp: adds_def)
  with Cons.IH [OF s1(2)] show ?case by simp
qed

lemma counters_ordered_updates:
  "counters_ordered s \<Longrightarrow> updates s bs = Inr s' \<Longrightarrow> counters_ordered s'"
proof (induction bs arbitrary: s)
  case Nil
  then show ?case by simp
next
  case (Cons xy bs)
  from Cons.prems(2) obtain s1 where
    s1: "update s (fst xy) (snd xy) = Inr s1" "updates s1 bs = Inr s'"
    by (rule updates_Cons_Inr)
  from Cons.prems(1) s1(1) have "counters_ordered s1" by (rule counters_ordered_update)
  then show ?case using s1(2) by (rule Cons.IH)
qed

lemma ratio_bounds:
  assumes "counters_ordered s" "0 \<le> smooth s" "cl \<in> set (finite_classes s)"
  shows "0 \<le> ratio s cl \<and> ratio s cl \<le> 1"
proof -
  from assms(3) have cl: "cl < num_classes s" "union_t s ! cl \<noteq> 0"
    by (simp_all add: finite_classes_iff)
  with assms(1,2) have "0 \<le> inter_t s ! cl" "inter_t s ! cl \<le> union_t s ! cl"
    by (auto simp: counters_ordered_def)
  with cl(2) show ?thesis by (simp add: ratio_def)
qed

lemma unseen_updates:
  "updates s bs = Inr s' \<Longrightarrow> unseen cl bs \<Longrightarrow> cl < num_classes s \<Longrightarrow>
     inter_t s' ! cl = inter_t s ! cl \<and> union_t s' ! cl = union_t s ! cl"
proof (induction bs arbitrary: s)
  case Nil
  then show ?case by simp
next
  case (Cons xy bs)
  from Cons.prems(1) obtain s1 where
    s1: "update s (fst xy) (snd xy) = Inr s1" "updates s1 bs = Inr s'"
    by (rule updates_Cons_Inr)
  from update_adds [OF s1(1)] obtain xl where
    xl: "argmax_dim1 (fst xy) = Inr xl" and a: "adds s xl (snd xy) s1"
    by blast
  from Cons.prems(2) xl have nk: "cl \<notin> set xl" "int cl \<notin> set (snd xy)" and u: "unseen cl bs"
    by (simp_all add: unseen_def)
  from a Cons.prems(3) have k1: "cl < num_classes s1" by (simp add: adds_def)
  from a Cons.prems(3) nk
  have "inter_t s1 ! cl = inter_t s ! cl" "union_t s1 ! cl = union_t s ! cl"
    by (simp_all add: adds_def inter_count_unseen union_count_unseen)
  with Cons.IH [OF s1(2) u k1] show ?case by simp
qed

lemma sum_list_le_length:
  fixes f :: "'a \<Rightarrow> real"
  shows "(\<And>x. x \<in> set xs \<Longrightarrow> f x \<le> 1) \<Longrightarrow> sum_list (map f xs) \<le> real (length xs)"
  by (induction xs) (auto simp: add_mono)

lemma mean_with_one:
  fixes S :: real
  assumes "S \<le> real m" "0 < m"
  shows "S / real m \<le> (1 + S) / (1 + real m)"
proof -
  have "S * (1 + real m) \<le> (1 + S) * real m"
    using assms(1) by (simp add: algebra_simps)
  then show ?thesis using assms(2) by (simp add: field_simps)
qed

section \<open>The concrete scenario\<close>

lemma argmax_dim1_scenario:
  "argmax_dim1 [[[0], [1]], [[0], [1]], [[0], [1]], [[0], [1]]] = Inr [1, 1, 1, 1]"
  by (simp add: argmax_dim1_def argmax_planes_def argmax_def)

text \<open>
  C1. An accumulator built with \<open>num_classes = 2\<close> and \<open>smooth = 0\<close>, reset, and
  updated once with predictions whose scores favour class 1 at each of 4 pixels and
  targets \<open>[1, 1, 0, 0]\<close> holds \<open>inter = [0, 2]\<close> and \<open>union = [2, 4]\<close>; the per-class
  ratios are \<open>0\<close> and \<open>1/2\<close>, and the score is their mean, \<open>1/4\<close>. The four pixels
  may be four batch elements (predictions of shape \<open>[4, 2]\<close>) or the four positions of
  one batch element (shape \<open>[1, 2, 4]\<close>).
\<close>

theorem C1_scenario:
  "update (reset (IoU_init 2 0))
          [[[0], [1]], [[0], [1]], [[0], [1]], [[0], [1]]] [1, 1, 0, 0]
     = Inr \<lparr>num_classes = 2, smooth = 0, inter_t = [0, 2], union_t = [2, 4]\<rparr>
   \<and> update (reset (IoU_init 2 0)) [[[0, 0, 0, 0], [1, 1, 1, 1]]] [1, 1, 0, 0]
     = Inr \<lparr>num_classes = 2, smooth = 0, inter_t = [0, 2], union_t = [2, 4]\<rparr>
   \<and> map2 fdiv [0, 2] [2, 4] = [Fin 0, Fin (1 / 2)]
   \<and> score \<lparr>num_classes = 2, smooth = 0, inter_t = [0, 2], union_t = [2, 4]\<rparr> = Fin (1 / 4)
   \<and> mean \<lparr>num_classes = 2, smooth = 0, inter_t = [0, 2], union_t = [2, 4]\<rparr> = Fin (1 / 4)"
proof -
  have "argmax_dim1 [[[0, 0, 0, 0], [1, 1, 1, 1]]] = Inr [1, 1, 1, 1]"
    by (simp add: argmax_dim1_def argmax_planes_def argmax_def upt_rec)
  then show ?thesis
    by (simp add: update_def argmax_dim1_scenario IoU_init_def reset_def zeros_def
        upt_rec broadcast2_def sum_bool_def numeral_2_eq_2
        score_def mean_def fdiv_def finite_values_def torch_mean_def)
qed

section \<open>Streaming accumulation\<close>



section \<open>Score and mean\<close>

text \<open>
  C4. For every accumulator state, \<open>mean()\<close> and \<open>score()\<close> return the same value,
  and that value is the arithmetic mean of the ratios \<open>inter[k] / union[k]\<close> over
  exactly the classes whose ratio is finite, which are the classes with a non-zero
  \<open>union[k]\<close>. A class with a non-finite ratio is left out and nothing is raised; when
  no class is left, the result is the NaN that the mean of an empty tensor is.
\<close>

theorem C4_score_mean:
  assumes "well_formed s"
  shows "mean s = score s \<and> score s = mean_of_finite_ratios s
       \<and> (\<forall>cl<num_classes s. cl \<in> set (finite_classes s) \<longleftrightarrow> union_t s ! cl \<noteq> 0)"
  using assms by (simp add: mean_def score_eq_mean_of_finite_ratios finite_classes_iff)

theorem C4_score_mean_witness:
  "mean \<lparr>num_classes = 3, smooth = 0, inter_t = [0, 2, 0], union_t = [2, 4, 0]\<rparr>
     = score \<lparr>num_classes = 3, smooth = 0, inter_t = [0, 2, 0], union_t = [2, 4, 0]\<rparr>
   \<and> score \<lparr>num_classes = 3, smooth = 0, inter_t = [0, 2, 0], union_t = [2, 4, 0]\<rparr> = Fin (1 / 4)
   \<and> finite_classes \<lparr>num_classes = 3, smooth = 0, inter_t = [0, 2, 0], union_t = [2, 4, 0]\<rparr>
       = [0, 1]"
proof -
  let ?s = "\<lparr>num_classes = 3, smooth = 0, inter_t = [0, 2, 0], union_t = [2, 4, 0]\<rparr>"
  have w: "well_formed ?s" by (simp add: well_formed_def)
  have f: "finite_classes ?s = [0, 1]" by (simp add: finite_classes_def upt_rec)
  from C4_score_mean [OF w] f show ?thesis
    by (simp add: mean_of_finite_ratios_def ratio_def)
qed

section \<open>Intersection never exceeds union\<close>

text \<open>
  C9 (as stated, refuted). The claim ends with: every finite per-class ratio used by
  \<open>score()\<close> is at most 1. With the negative smoothing constant \<open>-3/2\<close>, two
  classes and one update whose single pixel is predicted as class 0 and labelled 1,
  both counters of both classes are negative, \<open>inter = -3/2 \<le> union = -1/2\<close>, and
  both ratios, which are finite, are 3.
\<close>

theorem C9_ratio_counterexample:
  "updates (reset (IoU_init 2 (- 3 / 2))) [([[[1], [0]]], [1])]
     = Inr \<lparr>num_classes = 2, smooth = - 3 / 2,
            inter_t = [- 3 / 2, - 3 / 2], union_t = [- 1 / 2, - 1 / 2]\<rparr>
   \<and> finite_values (map2 fdiv [- 3 / 2, - 3 / 2] [- 1 / 2, - 1 / 2]) = [3, 3]
   \<and> score \<lparr>num_classes = 2, smooth = - 3 / 2,
            inter_t = [- 3 / 2, - 3 / 2], union_t = [- 1 / 2, - 1 / 2]\<rparr> = Fin 3
   \<and> \<not> (3 :: real) \<le> 1"
  by (simp add: update_def argmax_dim1_def argmax_planes_def argmax_def
      IoU_init_def reset_def zeros_def upt_rec broadcast2_def sum_bool_def numeral_2_eq_2
      score_def fdiv_def finite_values_def torch_mean_def)

text \<open>
  C9 (amended). \<open>reset\<close> sets both counters of every class to the smoothing constant.
  Every successful \<open>update\<close> adds \<open>count(pred == k AND truth == k)\<close> to \<open>inter[k]\<close>
  and the no-smaller \<open>count(pred == k OR truth == k)\<close> to \<open>union[k]\<close>. So after
  \<open>reset\<close> and any sequence of updates, \<open>inter[k] \<le> union[k]\<close> for every class
  \<open>k\<close>; and when the smoothing constant is not negative, every finite per-class
  ratio that \<open>score\<close> averages is at most 1.
\<close>

theorem C9_inter_le_union:
  assumes "updates (reset s0) bs = Inr s"
  shows "(\<forall>cl<num_classes s0. inter_t (reset s0) ! cl = smooth s0
                           \<and> union_t (reset s0) ! cl = smooth s0)
       \<and> (\<forall>t x y t'. update t x y = Inr t' \<longrightarrow>
            (\<exists>xl. argmax_dim1 x = Inr xl \<and> adds t xl y t'
                 \<and> (\<forall>cl. inter_count cl xl y \<le> union_count cl xl y)))
       \<and> num_classes s = num_classes s0
       \<and> (\<forall>cl<num_classes s. inter_t s ! cl \<le> union_t s ! cl)
       \<and> (0 \<le> smooth s0 \<longrightarrow>
            (\<forall>r\<in>set (finite_values (map2 fdiv (inter_t s) (union_t s))). r \<le> 1))"
proof -
  have co: "counters_ordered s"
    using counters_ordered_reset assms by (rule counters_ordered_updates)
  from updates_fields [OF assms]
  have f: "num_classes s = num_classes s0" "smooth s = smooth s0"
    by (simp_all add: reset_fields)
  have "r \<le> 1" if "0 \<le> smooth s0" "r \<in> set (finite_values (map2 fdiv (inter_t s) (union_t s)))"
    for r
  proof -
    from co have "well_formed s" by (simp add: counters_ordered_def)
    with that(2) obtain cl where "cl \<in> set (finite_classes s)" "r = ratio s cl"
      by (auto simp: finite_values_ratio)
    with ratio_bounds [OF co] that(1) f(2) show ?thesis by simp
  qed
  moreover have "\<exists>xl. argmax_dim1 x = Inr xl \<and> adds t xl y t'
                 \<and> (\<forall>cl. inter_count cl xl y \<le> union_count cl xl y)"
    if "update t x y = Inr t'" for t x y t'
    using update_adds [OF that] inter_count_le_union_count by blast
  ultimately show ?thesis
    using co f(1) by (simp add: reset_nth counters_ordered_def)
qed

theorem C9_inter_le_union_witness:
  "updates (reset (IoU_init 2 0))
      [([[[0], [1]], [[0], [1]], [[0], [1]], [[0], [1]]], [1, 1, 0, 0])]
     = Inr \<lparr>num_classes = 2, smooth = 0, inter_t = [0, 2], union_t = [2, 4]\<rparr>
   \<and> (0 :: real) \<le> 2 \<and> (2 :: real) \<le> 4
   \<and> finite_values (map2 fdiv [0, 2] [2, 4]) = [0, 1 / 2] \<and> (1 / 2 :: real) \<le> 1"
proof -
  let ?s = "\<lparr>num_classes = 2, smooth = 0, inter_t = [0, 2], union_t = [2, 4]\<rparr>"
  have u: "updates (reset (IoU_init 2 0))
      [([[[0], [1]], [[0], [1]], [[0], [1]], [[0], [1]]], [1, 1, 0, 0])] = Inr ?s"
    by (simp add: update_def argmax_dim1_scenario IoU_init_def reset_def zeros_def
        upt_rec broadcast2_def sum_bool_def numeral_2_eq_2)
  have v: "finite_values (map2 fdiv [0, 2] [2, 4]) = [0, 1 / 2]"
    by (simp add: finite_values_def fdiv_def)
  from C9_inter_le_union [OF u] have
    "\<forall>cl<2. inter_t ?s ! cl \<le> union_t ?s ! cl"
    "\<forall>r\<in>set (finite_values (map2 fdiv (inter_t ?s) (union_t ?s))). r \<le> 1"
    by (simp_all add: IoU_init_def reset_def)
  then have "inter_t ?s ! 0 \<le> union_t ?s ! 0" "inter_t ?s ! 1 \<le> union_t ?s ! 1"
    "\<forall>r\<in>set [0, 1 / 2 :: real]. r \<le> 1"
    using v by simp_all
  with u v show ?thesis by simp
qed

section \<open>Classes that never occur\<close>

text \<open>
  C10. Let the accumulator be constructed with smoothing constant \<open>sm\<close> and updated
  with mini-batches in which class \<open>k\<close> occurs neither as a predicted nor as a target
  label. Then \<open>inter[k] = union[k] = sm\<close>. The class is among those that \<open>score\<close>
  averages exactly when \<open>sm\<close> is not zero, so it is discarded only for \<open>sm = 0\<close>.
  For \<open>sm > 0\<close> its ratio is the finite value 1, the score is the mean of this 1
  and the finite ratios of the other classes, and that is never less than the mean of
  the others alone.
\<close>

theorem C10_unseen_class:
  assumes "updates (IoU_init n sm) bs = Inr s" "cl < n" "unseen cl bs"
  shows "inter_t s ! cl = sm \<and> union_t s ! cl = sm
       \<and> (cl \<in> set (finite_classes s) \<longleftrightarrow> sm \<noteq> 0)
       \<and> (0 < sm \<longrightarrow>
            fdiv (inter_t s ! cl) (union_t s ! cl) = Fin 1
          \<and> score s = Fin ((1 + sum_list (map (ratio s) (remove1 cl (finite_classes s))))
                           / (1 + real (length (remove1 cl (finite_classes s)))))
          \<and> (remove1 cl (finite_classes s) \<noteq> [] \<longrightarrow>
               sum_list (map (ratio s) (remove1 cl (finite_classes s)))
                 / real (length (remove1 cl (finite_classes s)))
               \<le> (1 + sum_list (map (ratio s) (remove1 cl (finite_classes s))))
                 / (1 + real (length (remove1 cl (finite_classes s))))))"
proof -
  let ?i = "\<lparr>num_classes = n, smooth = sm, inter_t = [], union_t = []\<rparr>"
  let ?o = "remove1 cl (finite_classes s)"
  have r: "IoU_init n sm = reset ?i" by (simp add: IoU_init_def)
  have k0: "cl < num_classes (reset ?i)" using assms(2) by (simp add: reset_fields)
  from unseen_updates [OF assms(1) assms(3)] k0 assms(2)
  have c: "inter_t s ! cl = sm" "union_t s ! cl = sm"
    by (simp_all add: r reset_nth)
  from updates_fields [OF assms(1)] have f: "num_classes s = n" "smooth s = sm"
    by (simp_all add: r reset_fields)
  have co: "counters_ordered s"
    using counters_ordered_reset assms(1) unfolding r by (rule counters_ordered_updates)
  then have w: "well_formed s" by (simp add: counters_ordered_def)
  have m: "cl \<in> set (finite_classes s) \<longleftrightarrow> sm \<noteq> 0"
    using assms(2) c f by (simp add: finite_classes_iff)
  have pos: "fdiv (inter_t s ! cl) (union_t s ! cl) = Fin 1
          \<and> score s = Fin ((1 + sum_list (map (ratio s) ?o)) / (1 + real (length ?o)))
          \<and> (?o \<noteq> [] \<longrightarrow> sum_list (map (ratio s) ?o) / real (length ?o)
               \<le> (1 + sum_list (map (ratio s) ?o)) / (1 + real (length ?o)))"
    if sm: "0 < sm"
  proof -
    from sm m have kin: "cl \<in> set (finite_classes s)" by simp
    then have ne: "finite_classes s \<noteq> []" by auto
    have rk: "ratio s cl = 1" using c sm by (simp add: ratio_def)
    have su: "sum_list (map (ratio s) (finite_classes s)) = 1 + sum_list (map (ratio s) ?o)"
      using sum_list_map_remove1 [OF kin, of "ratio s"] rk by simp
    have le: "real (length (finite_classes s)) = 1 + real (length ?o)"
      using kin ne by (simp add: length_remove1 Suc_leI of_nat_diff)
    have sc: "score s = Fin ((1 + sum_list (map (ratio s) ?o)) / (1 + real (length ?o)))"
      using w ne by (simp add: score_eq_mean_of_finite_ratios mean_of_finite_ratios_def su le)
    have "ratio s j \<le> 1" if "j \<in> set ?o" for j
    proof -
      from that have "j \<in> set (finite_classes s)"
        using notin_set_remove1 by fast
      with ratio_bounds [OF co] sm f(2) show ?thesis by simp
    qed
    then have "sum_list (map (ratio s) ?o) \<le> real (length ?o)" by (rule sum_list_le_length)
    then have "?o \<noteq> [] \<longrightarrow> sum_list (map (ratio s) ?o) / real (length ?o)
               \<le> (1 + sum_list (map (ratio s) ?o)) / (1 + real (length ?o))"
      by (auto intro: mean_with_one)
    with sc c sm show ?thesis by (simp add: fdiv_def)
  qed
  from c m pos show ?thesis by blast
qed

theorem C10_unseen_class_witness:
  "updates (IoU_init 3 1) [([[[0], [1]], [[0], [1]]], [1, 0])]
     = Inr \<lparr>num_classes = 3, smooth = 1, inter_t = [1, 2, 1], union_t = [2, 3, 1]\<rparr>
   \<and> finite_classes \<lparr>num_classes = 3, smooth = 1, inter_t = [1, 2, 1], union_t = [2, 3, 1]\<rparr>
       = [0, 1, 2]
   \<and> fdiv 1 1 = Fin 1
   \<and> score \<lparr>num_classes = 3, smooth = 1, inter_t = [1, 2, 1], union_t = [2, 3, 1]\<rparr>
       = Fin ((1 + (1 / 2 + 2 / 3)) / (1 + 2))
   \<and> ((1 / 2 + 2 / 3) / 2 :: real) \<le> (1 + (1 / 2 + 2 / 3)) / (1 + 2)"
proof -
  let ?s = "\<lparr>num_classes = 3, smooth = 1, inter_t = [1, 2, 1], union_t = [2, 3, 1]\<rparr>"
  let ?bs = "[([[[0], [1]], [[0], [1]]], [1, 0 :: int])]"
  have a: "argmax_dim1 [[[0], [1]], [[0], [1]]] = Inr [1, 1]"
    by (simp add: argmax_dim1_def argmax_planes_def argmax_def)
  have u: "updates (IoU_init 3 1) ?bs = Inr ?s"
    by (simp add: update_def a IoU_init_def reset_def zeros_def
        upt_rec broadcast2_def sum_bool_def numeral_2_eq_2 numeral_3_eq_3)
  have cl: "(2 :: nat) < 3" by simp
  have n: "unseen 2 ?bs" by (simp add: unseen_def a)
  have f: "finite_classes ?s = [0, 1, 2]" by (simp add: finite_classes_def upt_rec)
  from C10_unseen_class [OF u cl n] f u show ?thesis
    by (simp add: ratio_def)
qed

section \<open>Interpolation weights\<close>

lemma map2_map_same: "map2 f xs (map g xs) = map (\<lambda>x. f x (g x)) xs"
  by (induction xs) auto

lemma clamp_max: "(if d < eps then eps else d) = max d eps"
  by (simp add: max_def)

lemma FeaturePropagation_weight_rows:
  "FeaturePropagation_weight sqdist = map (map row_weight) sqdist"
  by (simp add: FeaturePropagation_weight_def clamp_below_def reciprocal_def sum_keepdim_def
      div_keepdim_def map2_map_same row_weight_def o_def clamp_max)

lemma eps_pos: "0 < eps"
  by (simp add: eps_def)

lemma recip_pos: "0 < 1 / max d eps"
  using eps_pos by (simp add: max_def)

lemma sum_list_pos_real:
  fixes f :: "'a \<Rightarrow> real"
  shows "xs \<noteq> [] \<Longrightarrow> (\<And>x. x \<in> set xs \<Longrightarrow> 0 < f x) \<Longrightarrow> 0 < sum_list (map f xs)"
proof (induction xs)
  case Nil
  then show ?case by simp
next
  case (Cons a xs)
  have a: "0 < f a" using Cons.prems(2) by simp
  show ?case
  proof (cases "xs = []")
    case True
    with a show ?thesis by simp
  next
    case False
    then have "0 < sum_list (map f xs)" using Cons.prems(2) by (intro Cons.IH) simp_all
    with a show ?thesis by simp
  qed
qed

lemma sum_list_divide_const:
  fixes f :: "'a \<Rightarrow> real"
  shows "sum_list (map (\<lambda>x. f x / c) xs) = sum_list (map f xs) / c"
  by (induction xs) (simp_all add: add_divide_distrib)

lemma row_weight_sum:
  assumes "ds \<noteq> []"
  shows "sum_list (row_weight ds) = 1"
proof -
  let ?S = "sum_list (map (\<lambda>d'. 1 / max d' eps) ds)"
  have pos: "0 < ?S"
    using assms recip_pos by (intro sum_list_pos_real) auto
  have "sum_list (row_weight ds) = sum_list (map (\<lambda>d. (1 / max d eps) / ?S) ds)"
    by (simp only: row_weight_def)
  also have "\<dots> = ?S / ?S" by (rule sum_list_divide_const)
  also have "\<dots> = 1" using pos by simp
  finally show ?thesis .
qed

lemma row_weight_nonneg: "w \<in> set (row_weight ds) \<Longrightarrow> 0 < w"
proof -
  assume "w \<in> set (row_weight ds)"
  then obtain d where d: "d \<in> set ds"
    and w: "w = (1 / max d eps) / sum_list (map (\<lambda>d'. 1 / max d' eps) ds)"
    by (auto simp: row_weight_def)
  from d have "ds \<noteq> []" by auto
  then have "0 < sum_list (map (\<lambda>d'. 1 / max d' eps) ds)"
    using recip_pos by (intro sum_list_pos_real) auto
  with recip_pos [of d] show ?thesis unfolding w by (rule divide_pos_pos)
qed

text \<open>
  C6. In \<open>FeaturePropagation.forward\<close>, the weight of each of the \<open>K\<close> neighbours
  of a query point is \<open>1 / max(sqdist, 1e-10)\<close> divided by the sum of these
  reciprocals over the \<open>K\<close> neighbours of that query point; every weight is
  non-negative, and the weights of a query point sum to 1. Floats are idealised as
  reals, and the query point has at least one neighbour.
\<close>

theorem C6_weights:
  assumes "b < length sqdist" "i < length (sqdist ! b)" "sqdist ! b ! i \<noteq> []"
  shows "length (FeaturePropagation_weight sqdist) = length sqdist
       \<and> length (FeaturePropagation_weight sqdist ! b) = length (sqdist ! b)
       \<and> length (FeaturePropagation_weight sqdist ! b ! i) = length (sqdist ! b ! i)
       \<and> (\<forall>j<length (sqdist ! b ! i).
            FeaturePropagation_weight sqdist ! b ! i ! j
              = (1 / max (sqdist ! b ! i ! j) (1 / 10 ^ 10))
                / (\<Sum>j'<length (sqdist ! b ! i). 1 / max (sqdist ! b ! i ! j') (1 / 10 ^ 10))
          \<and> 0 \<le> FeaturePropagation_weight sqdist ! b ! i ! j)
       \<and> sum_list (FeaturePropagation_weight sqdist ! b ! i) = 1"
proof -
  let ?ds = "sqdist ! b ! i"
  let ?w = "FeaturePropagation_weight sqdist ! b ! i"
  have w: "?w = row_weight ?ds"
    using assms(1,2) by (simp add: FeaturePropagation_weight_rows)
  have s: "sum_list (map (\<lambda>d'. 1 / max d' eps) ?ds) = (\<Sum>j'<length ?ds. 1 / max (?ds ! j') eps)"
    by (simp add: sum_list_sum_nth atLeast0LessThan)
  have 1: "length (FeaturePropagation_weight sqdist) = length sqdist"
    by (simp add: FeaturePropagation_weight_rows)
  have 2: "length (FeaturePropagation_weight sqdist ! b) = length (sqdist ! b)"
    using assms(1) by (simp add: FeaturePropagation_weight_rows)
  have 3: "length ?w = length ?ds" unfolding w by (simp add: row_weight_def)
  have 4: "?w ! j = (1 / max (?ds ! j) (1 / 10 ^ 10))
                     / (\<Sum>j'<length ?ds. 1 / max (?ds ! j') (1 / 10 ^ 10))
      \<and> 0 \<le> ?w ! j" if "j < length ?ds" for j
  proof -
    have "row_weight ?ds ! j \<in> set (row_weight ?ds)"
      using that by (intro nth_mem) (simp add: row_weight_def)
    then have "0 < row_weight ?ds ! j" by (rule row_weight_nonneg)
    then have p: "0 \<le> row_weight ?ds ! j" by simp
    have e: "row_weight ?ds ! j
        = (1 / max (?ds ! j) eps) / (\<Sum>j'<length ?ds. 1 / max (?ds ! j') eps)"
      using that by (simp only: row_weight_def nth_map s)
    from e [unfolded eps_def] p show ?thesis unfolding w by (rule conjI)
  qed
  have 5: "sum_list ?w = 1" unfolding w using assms(3) by (rule row_weight_sum)
  from 1 2 3 4 5 show ?thesis by blast
qed

theorem C6_weights_witness:
  "FeaturePropagation_weight [[[0, 1, 4]]] ! 0 ! 0 ! 1 = 1 / (10 ^ 10 + 1 + 1 / 4)
   \<and> 0 \<le> FeaturePropagation_weight [[[0, 1, 4]]] ! 0 ! 0 ! 1
   \<and> sum_list (FeaturePropagation_weight [[[0, 1, 4]]] ! 0 ! 0) = 1"
proof -
  have 1: "(0 :: nat) < length [[[0, 1, 4 :: real]]]" by simp
  have 2: "(0 :: nat) < length ([[[0, 1, 4 :: real]]] ! 0)" by simp
  have 3: "[[[0, 1, 4 :: real]]] ! 0 ! 0 \<noteq> []" by simp
  from C6_weights [OF 1 2 3] show ?thesis
    by (simp add: lessThan_nat_numeral lessThan_Suc)
qed

section \<open>Shapes through the layers\<close>

lemma and_then_Inr [simp]: "and_then (Inr v) f = f v"
  by (simp add: and_then_def)

lemma and_then_Inl [simp]: "and_then (Inl e) f = Inl e"
  by (simp add: and_then_def)

lemma view_flat:
  assumes "0 < b"
  shows "view [int b, - 1] [b, n, m] = Inr [b, n * m]"
  using assms by (simp add: view_def numel_def)



lemma view_unflat:
  assumes "0 < b" "0 < n" "0 < m"
  shows "view [int b, int n, int m, - 1] [b, n * m, c] = Inr [b, n, m, c]"
proof -
  have "b * (n * m * c) = (b * (n * m)) * c" by simp
  moreover have "0 < b * (n * m)" using assms by simp
  ultimately show ?thesis
    using assms by (simp add: view_def numel_def del: mult.assoc mult_eq_0_iff)
qed

lemma view_unflat3:
  assumes "0 < b" "0 < m"
  shows "view [int b, int m, int m, - 1] [b, m * m, n, Suc 0] = Inr [b, m, m, n]"
proof -
  have "b * (m * m * n) = (b * (m * m)) * n" by simp
  moreover have "0 < b * (m * m)" using assms by simp
  ultimately show ?thesis
    using assms by (simp add: view_def numel_def del: mult.assoc mult_eq_0_iff)
qed

lemma slice_count: "0 < d \<Longrightarrow> (n * d + d - Suc 0) div d = (n :: nat)"
proof -
  assume d: "0 < d"
  have "n * d + d - Suc 0 = n * d + (d - 1)" using d by simp
  moreover have "(n * d + (d - 1)) div d = n + (d - 1) div d"
    using d by (intro div_mult_self3) simp
  ultimately show ?thesis using d by simp
qed

lemma mlp2d_shape:
  "0 < h \<Longrightarrow> 0 < w \<Longrightarrow> \<not> (train \<and> b * h * w = 1) \<Longrightarrow>
     mlp2d train cin cs [b, cin, h, w] = Inr [b, last (cin # cs), h, w]"
  by (induction cs arbitrary: cin) (simp_all add: Conv2d_def BatchNorm2d_def ReLU_def)

lemma mlp1d_shape:
  "0 < l \<Longrightarrow> \<not> (train \<and> b * l = 1) \<Longrightarrow>
     mlp1d train cin cs [b, cin, l] = Inr [b, last (cin # cs), l]"
  by (induction cs arbitrary: cin) (simp_all add: Conv1d_def BatchNorm1d_def ReLU_def)

lemmas shape_simps =
  shape0_def permute_def knn_def batched_index_select_def unsqueeze_def repeat_def
  broadcast_shapes_def cat_def norm_dim_def Conv2d_def BatchNorm2d_def
  LeakyReLU_def ReLU_def max_dim_def squeeze_def matmul_def slice_last_shape_def
  MaxPool2d_def ball_point_def point_interpolate_def

subsection \<open>EdgeConv\<close>

lemma EdgeConv_forward_shape:
  assumes "0 < b" "EdgeConv.in_channels m = c" "0 < EdgeConv.kernel_size m"
    "EdgeConv.kernel_size m \<le> n"
    "\<not> (EdgeConv.training m \<and> b * n * EdgeConv.kernel_size m = 1)"
  shows "EdgeConv_forward m [b, c, n] = Inr (Tensor [b, EdgeConv.out_channels m, n])"
proof -
  have n: "0 < n" using assms(3,4) by simp
  show ?thesis
    using assms n
    by (simp add: EdgeConv_forward_def EdgeConv_conv_def shape_simps view_flat view_unflat)
qed




subsection \<open>XConv, SetAbstraction, FeaturePropagation\<close>

lemma XConv_forward_shape:
  assumes "0 < b" "0 < nq" "0 < XConv.kernel_size m" "0 < dilation m"
    "XConv.kernel_size m * dilation m \<le> np"
    "\<not> (XConv.training m \<and> b * nq = 1)"
    "x = None \<and> XConv.in_channels m = 0 \<or> x = Some [b, XConv.in_channels m, np]"
  shows "XConv_forward m [b, np, 3] [b, nq, 3] x
         = Inr (Tuple [Tensor [b, nq, 3], Tensor [b, XConv.out_channels m, nq]])"
proof -
  from assms(7) show ?thesis
  proof
    assume "x = None \<and> XConv.in_channels m = 0"
    then show ?thesis
      using assms(1-6)
      by (auto simp: XConv_forward_def XConv_mlp_def XConv_stn_def XConv_conv_def Let_def
          shape_simps view_flat view_unflat view_unflat3 slice_count power2_eq_square)
  next
    assume "x = Some [b, XConv.in_channels m, np]"
    then show ?thesis
      using assms(1-6)
      by (auto simp: XConv_forward_def XConv_mlp_def XConv_stn_def XConv_conv_def Let_def
          shape_simps view_flat view_unflat view_unflat3 slice_count power2_eq_square)
  qed
qed

text \<open>
  The first three steps of \<open>XConv.forward\<close>: the index tensor that enters the gather
  has \<open>K\<close> entries per query point.
\<close>

lemma XConv_index_shape:
  assumes "0 < dilation m" "XConv.kernel_size m * dilation m \<le> np"
  shows "and_then (knn [b, np, 3] [b, nq, 3] (XConv.kernel_size m * dilation m))
           (\<lambda>(sqdist, index). slice_last_shape (dilation m) index)
         = Inr [b, nq, XConv.kernel_size m]"
  using assms by (simp add: knn_def slice_last_shape_def slice_count)

text \<open>
  Group-all mode with a pooling window \<open>kw\<close> that fits: the output holds \<open>n div kw\<close>
  feature vectors per batch element, and the last axis is squeezed away only when that
  number is one.
\<close>

lemma SetAbstraction_group_all_shape:
  assumes "radius m = None" "SetAbstraction.k m = Some kw" "0 < kw" "kw \<le> n"
    "0 < last (SetAbstraction.in_channels m # SetAbstraction.mlp m)"
    "\<not> (SetAbstraction.training m \<and> b * n = 1)"
    "x = None \<and> SetAbstraction.in_channels m = d
     \<or> (\<exists>c. x = Some [b, n, c] \<and> SetAbstraction.in_channels m = d + c)"
  shows "SetAbstraction_forward m [b, n, d] q x
         = Inr (Tuple [Tensor q,
             Tensor (if n div kw = 1
                     then [b, last (SetAbstraction.in_channels m # SetAbstraction.mlp m), 1]
                     else [b, last (SetAbstraction.in_channels m # SetAbstraction.mlp m), 1,
                           n div kw])])"
proof -
  have n: "0 < n" using assms(3,4) by simp
  have dv: "(n - kw) div kw + 1 = n div kw"
    using assms(3,4) by (simp add: le_div_geq)
  from assms(7) show ?thesis
  proof (elim disjE exE conjE)
    assume "x = None" "SetAbstraction.in_channels m = d"
    then show ?thesis
      using assms(1-6) n dv
      by (simp add: SetAbstraction_forward_def SetAbstraction_mlp_def SetAbstraction_maxpool_def
          Let_def shape_simps mlp2d_shape)
  next
    fix c assume "x = Some [b, n, c]" "SetAbstraction.in_channels m = d + c"
    then show ?thesis
      using assms(1-6) n dv
      by (simp add: SetAbstraction_forward_def SetAbstraction_mlp_def SetAbstraction_maxpool_def
          Let_def shape_simps mlp2d_shape)
  qed
qed

lemma FeaturePropagation_forward_shape:
  assumes "0 < nq" "FeaturePropagation.k m \<le> np"
    "\<not> (FeaturePropagation.training m \<and> b * nq = 1)"
    "y = None \<and> FeaturePropagation.in_channels m = c
     \<or> (\<exists>c2. y = Some [b, c2, nq] \<and> FeaturePropagation.in_channels m = c + c2)"
  shows "FeaturePropagation_forward m [b, np, 3] [b, nq, 3] [b, c, np] y
         = Inr (Tuple [Tensor [b, nq, 3],
              Tensor [b, last (FeaturePropagation.in_channels m # FeaturePropagation.mlp m), nq]])"
  using assms
  by (auto simp: FeaturePropagation_forward_def FeaturePropagation_mlp_def Let_def
      shape_simps mlp1d_shape)

subsection \<open>What a forward returns\<close>

lemma returns_and_then: "(\<And>a. returns P (f a)) \<Longrightarrow> returns P (and_then r f)"
  by (cases r) (simp_all add: returns_def)

lemma returns_prod: "(\<And>a b. returns P (f a b)) \<Longrightarrow> returns P (case p of (a, b) \<Rightarrow> f a b)"
  by (cases p) simp

lemma returns_prod3:
  "(\<And>a b c. returns P (f a b c)) \<Longrightarrow> returns P (case p of (a, b, c) \<Rightarrow> f a b c)"
  by (cases p) simp

lemma returns_Inr: "P v \<Longrightarrow> returns P (Inr v)"
  by (simp add: returns_def)

lemma XConv_forward_returns:
  "returns (\<lambda>v. \<exists>f. v = Tuple [Tensor q, Tensor f]) (XConv_forward m p q x)"
  unfolding XConv_forward_def Let_def
  by (intro returns_and_then returns_prod returns_Inr) simp

lemma SetAbstraction_forward_returns:
  "returns (\<lambda>v. \<exists>f. v = Tuple [Tensor q, Tensor f]) (SetAbstraction_forward m p q x)"
  unfolding SetAbstraction_forward_def Let_def
  by (intro returns_and_then returns_prod3 returns_Inr) simp

lemma FeaturePropagation_forward_returns:
  "returns (\<lambda>v. \<exists>f. v = Tuple [Tensor q, Tensor f]) (FeaturePropagation_forward m p q x y)"
  unfolding FeaturePropagation_forward_def Let_def
  by (intro returns_and_then returns_prod returns_Inr) simp

lemma EdgeConv_forward_returns:
  "returns (\<lambda>v. \<exists>f. v = Tensor f) (EdgeConv_forward m x)"
  unfolding EdgeConv_forward_def Let_def
  by (intro returns_and_then returns_prod returns_Inr) simp

subsection \<open>Slices and pooling windows\<close>

lemma slice_step_length:
  "0 < d \<Longrightarrow> length (slice_step d (xs :: 'a list)) = (length xs + d - 1) div d"
  by (simp add: slice_step_def)

lemma slice_step_nth:
  "j < (length xs + d - 1) div d \<Longrightarrow> slice_step d xs ! j = xs ! (j * d)"
  by (simp add: slice_step_def)

lemma maxpool_row_all:
  assumes "length row = n" "0 < n"
  shows "maxpool_row n row = Inr [Max (set row)]"
  using assms by (simp add: maxpool_row_def)

section \<open>Results and shapes of the layers\<close>



text \<open>
  C2 (as stated, refuted). \<open>EdgeConv.forward\<close> ends with \<open>return x\<close>: on an input
  of shape \<open>[2, 3, 5]\<close> it returns the features tensor of shape \<open>[2, 64, 5]\<close> alone,
  not a pair.
\<close>

theorem C2_EdgeConv_counterexample:
  "EdgeConv_forward \<lparr>EdgeConv.in_channels = 3, out_channels = 64, kernel_size = 2,
                      bias = True, training = True\<rparr> [2, 3, 5]
     = Inr (Tensor [2, 64, 5])
   \<and> \<not> is_pair (Tensor [2, 64, 5])"
  using EdgeConv_forward_shape
    [of 2 "\<lparr>EdgeConv.in_channels = 3, out_channels = 64, kernel_size = 2,
            bias = True, training = True\<rparr>" 3 5]
  by simp

text \<open>
  C2 (amended). \<open>XConv\<close>, \<open>SetAbstraction\<close> and \<open>FeaturePropagation\<close>, whenever
  their \<open>forward\<close> returns, return a pair \<open>(query_points, features)\<close> whose first
  component is the query-points argument \<open>q\<close>, unchanged. \<open>EdgeConv\<close> takes no query
  points, and whenever its \<open>forward\<close> returns, it returns one features tensor.
\<close>

theorem C2_forward_results:
  "(\<forall>v. XConv_forward m1 p1 q1 x1 = Inr v
        \<longrightarrow> (\<exists>f. v = Tuple [Tensor q1, Tensor f]) \<and> is_pair v)
   \<and> (\<forall>v. SetAbstraction_forward m2 p2 q2 x2 = Inr v
          \<longrightarrow> (\<exists>f. v = Tuple [Tensor q2, Tensor f]) \<and> is_pair v)
   \<and> (\<forall>v. FeaturePropagation_forward m3 p3 q3 x3 y3 = Inr v
          \<longrightarrow> (\<exists>f. v = Tuple [Tensor q3, Tensor f]) \<and> is_pair v)
   \<and> (\<forall>v. EdgeConv_forward m0 x0 = Inr v \<longrightarrow> (\<exists>f. v = Tensor f) \<and> \<not> is_pair v)"
  using XConv_forward_returns [of q1 m1 p1 x1] SetAbstraction_forward_returns [of q2 m2 p2 x2]
    FeaturePropagation_forward_returns [of q3 m3 p3 x3 y3] EdgeConv_forward_returns [of m0 x0]
  by (auto simp: returns_def)

theorem C2_forward_results_witness:
  "XConv_forward \<lparr>XConv.in_channels = 4, out_channels = 16, kernel_size = 2,
                   dilation = 3, bias = True, training = True\<rparr>
         [2, 8, 3] [2, 5, 3] (Some [2, 4, 8])
     = Inr (Tuple [Tensor [2, 5, 3], Tensor [2, 16, 5]])
   \<and> is_pair (Tuple [Tensor [2, 5, 3], Tensor [2, 16, 5]])
   \<and> SetAbstraction_forward \<lparr>SetAbstraction.in_channels = 3, mlp = [64, 128],
         radius = Some (1 / 5), k = Some 4, bias = True, training = True\<rparr>
         [2, 8, 3] [2, 5, 3] None
     = Inr (Tuple [Tensor [2, 5, 3], Tensor [2, 128, 5]])
   \<and> is_pair (Tuple [Tensor [2, 5, 3], Tensor [2, 128, 5]])
   \<and> FeaturePropagation_forward \<lparr>FeaturePropagation.in_channels = 10, mlp = [32], k = 3,
         bias = True, training = True\<rparr> [2, 5, 3] [2, 8, 3] [2, 6, 5] (Some [2, 4, 8])
     = Inr (Tuple [Tensor [2, 8, 3], Tensor [2, 32, 8]])
   \<and> is_pair (Tuple [Tensor [2, 8, 3], Tensor [2, 32, 8]])
   \<and> EdgeConv_forward \<lparr>EdgeConv.in_channels = 3, out_channels = 64, kernel_size = 2,
         bias = True, training = True\<rparr> [2, 3, 5]
     = Inr (Tensor [2, 64, 5])
   \<and> \<not> is_pair (Tensor [2, 64, 5])"
proof -
  let ?m1 = "\<lparr>XConv.in_channels = 4, out_channels = 16, kernel_size = 2,
              dilation = 3, bias = True, training = True\<rparr>"
  let ?m2 = "\<lparr>SetAbstraction.in_channels = 3, mlp = [64, 128],
         radius = Some (1 / 5), k = Some 4, bias = True, training = True\<rparr>"
  let ?m3 = "\<lparr>FeaturePropagation.in_channels = 10, mlp = [32], k = 3,
         bias = True, training = True\<rparr>"
  let ?m0 = "\<lparr>EdgeConv.in_channels = 3, out_channels = 64, kernel_size = 2,
         bias = True, training = True\<rparr>"
  have 1: "XConv_forward ?m1 [2, 8, 3] [2, 5, 3] (Some [2, 4, 8])
           = Inr (Tuple [Tensor [2, 5, 3], Tensor [2, 16, 5]])"
    using XConv_forward_shape [of 2 5 ?m1 8 "Some [2, 4, 8]"] by simp
  have 2: "SetAbstraction_forward ?m2 [2, 8, 3] [2, 5, 3] None
           = Inr (Tuple [Tensor [2, 5, 3], Tensor [2, 128, 5]])"
    by (simp add: SetAbstraction_forward_def SetAbstraction_mlp_def SetAbstraction_maxpool_def
        Let_def shape_simps view_def numel_def)
  have 3: "FeaturePropagation_forward ?m3 [2, 5, 3] [2, 8, 3] [2, 6, 5] (Some [2, 4, 8])
           = Inr (Tuple [Tensor [2, 8, 3], Tensor [2, 32, 8]])"
    using FeaturePropagation_forward_shape [of 8 ?m3 5 2 "Some [2, 4, 8]" 6] by simp
  have 0: "EdgeConv_forward ?m0 [2, 3, 5] = Inr (Tensor [2, 64, 5])"
    using EdgeConv_forward_shape [of 2 ?m0 3 5] by simp
  from C2_forward_results [of ?m1 "[2, 8, 3]" "[2, 5, 3]" "Some [2, 4, 8]"
      ?m2 "[2, 8, 3]" "[2, 5, 3]" None ?m3 "[2, 5, 3]" "[2, 8, 3]" "[2, 6, 5]" "Some [2, 4, 8]"
      ?m0 "[2, 3, 5]"] 0 1 2 3
  show ?thesis by simp
qed

text \<open>
  C5 (as stated, refuted). In group-all mode the pooling window is the constructor's
  \<open>k\<close>, not the number of input points. With \<open>k = 2\<close> and 4 input points the output
  holds two feature vectors per batch element (the pooling turns a row \<open>[1, 5, 2, 3]\<close>
  into \<open>[5, 3]\<close>), and with the default \<open>k = None\<close> the call raises.
\<close>

theorem C5_group_all_counterexample:
  "SetAbstraction_forward \<lparr>SetAbstraction.in_channels = 3, mlp = [64, 128],
         radius = None, k = Some 2, bias = True, training = True\<rparr>
         [2, 4, 3] [2, 1, 3] None
     = Inr (Tuple [Tensor [2, 1, 3], Tensor [2, 128, 1, 2]])
   \<and> maxpool_row 2 [1, 5, 2, 3] = Inr [5, 3]
   \<and> SetAbstraction_forward \<lparr>SetAbstraction.in_channels = 3, mlp = [64, 128],
         radius = None, k = None, bias = True, training = True\<rparr>
         [2, 4, 3] [2, 1, 3] None
     = Inl TypeError"
  by (simp add: SetAbstraction_forward_def SetAbstraction_mlp_def SetAbstraction_maxpool_def
      Let_def shape_simps maxpool_row_def upt_rec)

text \<open>
  C5 (amended). For \<open>SetAbstraction\<close> constructed with \<open>radius = None\<close> (group-all
  mode) and with \<open>k\<close> equal to the number \<open>N \<ge> 1\<close> of input points, \<open>forward\<close> on a
  non-empty batch returns the query points and a feature tensor of shape \<open>[B, C', 1]\<close>:
  for every batch element exactly one output feature vector, each entry of which is the
  maximum over all \<open>N\<close> points. (The channel counts are positive, the input has the
  channels that the layer was built for, and in training mode the batch normalisation
  sees more than one value per channel.)
\<close>

theorem C5_group_all:
  assumes "radius m = None" "SetAbstraction.k m = Some n" "0 < n" "0 < b"
    "list_all (\<lambda>c. 0 < c) (SetAbstraction.in_channels m # SetAbstraction.mlp m)"
    "\<not> (SetAbstraction.training m \<and> b * n = 1)"
    "x = None \<and> SetAbstraction.in_channels m = d
     \<or> (\<exists>c. x = Some [b, n, c] \<and> SetAbstraction.in_channels m = d + c)"
  shows "SetAbstraction_forward m [b, n, d] q x
           = Inr (Tuple [Tensor q,
                Tensor [b, last (SetAbstraction.in_channels m # SetAbstraction.mlp m), 1]])
       \<and> (\<forall>row. length row = n \<longrightarrow> maxpool_row n row = Inr [Max (set row)])"
proof -
  have "last (SetAbstraction.in_channels m # SetAbstraction.mlp m)
          \<in> set (SetAbstraction.in_channels m # SetAbstraction.mlp m)"
    by (rule last_in_set) simp
  with assms(5) have p: "0 < last (SetAbstraction.in_channels m # SetAbstraction.mlp m)"
    unfolding list_all_iff by blast
  from SetAbstraction_group_all_shape [OF assms(1,2,3) le_refl p assms(6,7), of q] assms(3)
  show ?thesis by (simp add: maxpool_row_all)
qed

theorem C5_group_all_witness:
  "SetAbstraction_forward \<lparr>SetAbstraction.in_channels = 3 + 6, mlp = [64, 128],
         radius = None, k = Some 4, bias = True, training = True\<rparr>
         [2, 4, 3] [2, 1, 3] (Some [2, 4, 6])
     = Inr (Tuple [Tensor [2, 1, 3], Tensor [2, 128, 1]])
   \<and> maxpool_row 4 [1, 5, 2, 3] = Inr [5]"
proof -
  let ?m = "\<lparr>SetAbstraction.in_channels = 3 + 6, mlp = [64, 128],
         radius = None, k = Some 4, bias = True, training = True\<rparr>"
  have 1: "radius ?m = None" by simp
  have 2: "SetAbstraction.k ?m = Some 4" by simp
  have 3: "(0 :: nat) < 4" by simp
  have 4: "(0 :: nat) < 2" by simp
  have 5: "list_all (\<lambda>c. 0 < c) (SetAbstraction.in_channels ?m # SetAbstraction.mlp ?m)"
    by simp
  have 6: "\<not> (SetAbstraction.training ?m \<and> (2 :: nat) * 4 = 1)" by simp
  have 7: "Some [2, 4, 6] = None \<and> SetAbstraction.in_channels ?m = 3
     \<or> (\<exists>c. Some [2, 4, 6] = Some [2, 4, c] \<and> SetAbstraction.in_channels ?m = 3 + c)"
    by simp
  have "length [1, 5, 2, 3 :: real] = 4" by simp
  with C5_group_all [OF 1 2 3 4 5 6 7, of "[2, 1, 3]"]
  have "SetAbstraction_forward ?m [2, 4, 3] [2, 1, 3] (Some [2, 4, 6])
          = Inr (Tuple [Tensor [2, 1, 3], Tensor [2, 128, 1]])"
    "maxpool_row 4 [1, 5, 2, 3] = Inr [Max (set [1, 5, 2, 3])]"
    by simp_all
  then show ?thesis by simp
qed

text \<open>
  C7. \<open>XConv.forward\<close> with kernel size \<open>K\<close> and dilation \<open>d \<ge> 1\<close> asks the
  neighbour search for the \<open>K * d\<close> nearest neighbours of each query point and keeps
  the entries at positions \<open>0, d, 2d, ...\<close> of each row: exactly \<open>K\<close> indices per
  query point, the \<open>j\<close>-th of which is the \<open>(j * d)\<close>-th nearest neighbour.
\<close>

theorem C7_XConv_dilation:
  assumes "search (XConv.kernel_size m * dilation m) = Inr index" "0 < dilation m"
    "b < length index" "i < length (index ! b)"
    "length (index ! b ! i) = XConv.kernel_size m * dilation m"
  shows "\<exists>index'. XConv_index m search = Inr index'
           \<and> length index' = length index \<and> length (index' ! b) = length (index ! b)
           \<and> length (index' ! b ! i) = XConv.kernel_size m
           \<and> (\<forall>j<XConv.kernel_size m. index' ! b ! i ! j = index ! b ! i ! (j * dilation m))"
proof -
  let ?d = "dilation m"
  let ?r = "index ! b ! i"
  have c: "(length ?r + ?d - 1) div ?d = XConv.kernel_size m"
    using assms(2,5) slice_count [of ?d "XConv.kernel_size m"] by simp
  have "XConv_index m search = Inr (map (map (slice_step ?d)) index)"
    using assms(1,2) by (simp add: XConv_index_def slice_last_def)
  moreover have "map (map (slice_step ?d)) index ! b ! i = slice_step ?d ?r"
    using assms(3,4) by simp
  moreover have "length (slice_step ?d ?r) = XConv.kernel_size m"
    using assms(2) c by (simp add: slice_step_length)
  moreover have "slice_step ?d ?r ! j = ?r ! (j * ?d)" if "j < XConv.kernel_size m" for j
    using that c by (simp add: slice_step_nth)
  ultimately show ?thesis using assms(3) by simp
qed

theorem C7_XConv_dilation_witness:
  "XConv_index \<lparr>XConv.in_channels = 4, out_channels = 16, kernel_size = 2,
                 dilation = 3, bias = True, training = True\<rparr>
      (\<lambda>n. Inr [[take n [4, 2, 7, 1, 0, 5, 3, 6]]]) = Inr [[[4, 1]]]
   \<and> length ([[[4, 1 :: nat]]] ! 0 ! 0) = 2
   \<and> [[[4, 1 :: nat]]] ! 0 ! 0 ! 1 = [[[4, 2, 7, 1, 0, 5]]] ! 0 ! 0 ! (1 * 3)"
proof -
  let ?m = "\<lparr>XConv.in_channels = 4, out_channels = 16, kernel_size = 2,
                 dilation = 3, bias = True, training = True\<rparr>"
  let ?s = "\<lambda>n :: nat. Inr [[take n [4, 2, 7, 1, 0, 5, 3, 6 :: nat]]] :: error + nat list list list"
  have 1: "?s (XConv.kernel_size ?m * dilation ?m) = Inr [[[4, 2, 7, 1, 0, 5]]]" by simp
  have 2: "0 < dilation ?m" by simp
  have 3: "0 < length [[[4, 2, 7, 1, 0, 5 :: nat]]]" by simp
  have 4: "0 < length ([[[4, 2, 7, 1, 0, 5 :: nat]]] ! 0)" by simp
  have 5: "length ([[[4, 2, 7, 1, 0, 5 :: nat]]] ! 0 ! 0) = XConv.kernel_size ?m * dilation ?m"
    by simp
  have v: "XConv_index ?m ?s = Inr [[[4, 1]]]"
    by (simp add: XConv_index_def slice_last_def slice_step_def upt_rec)
  from C7_XConv_dilation [of ?s ?m "[[[4, 2, 7, 1, 0, 5]]]" 0 0, OF 1 2 3 4 5] v
  show ?thesis by simp
qed

end
